theory Spec2Isabelle
  imports Main "HOL-Library.Char_ord" "HOL-Library.List_Lexorder"
begin

section \<open>JavaScript strings and values\<close>

text \<open>
  The routes are TypeScript. A JavaScript string is modelled as a \<open>string\<close> of ASCII
  characters; \<open>null\<close> and \<open>undefined\<close> are both \<open>None\<close> of an option type. The
  string methods the sync routes call are defined below on ASCII: \<open>toUpperCase\<close> and
  \<open>toLowerCase\<close> map the 26 letters and leave every other character alone, \<open>trim\<close>
  strips the six ASCII white-space characters. Characters outside ASCII are not modelled.
\<close>

definition lower_letters :: string where
  "lower_letters = ''abcdefghijklmnopqrstuvwxyz''"

definition upper_letters :: string where
  "upper_letters = ''ABCDEFGHIJKLMNOPQRSTUVWXYZ''"

definition digit_chars :: string where
  "digit_chars = ''0123456789''"

definition upper_char :: "char \<Rightarrow> char" where
  "upper_char c = (case map_of (zip lower_letters upper_letters) c of Some u \<Rightarrow> u | None \<Rightarrow> c)"

definition lower_char :: "char \<Rightarrow> char" where
  "lower_char c = (case map_of (zip upper_letters lower_letters) c of Some l \<Rightarrow> l | None \<Rightarrow> c)"

definition toUpperCase :: "string \<Rightarrow> string" where
  "toUpperCase s = map upper_char s"

definition toLowerCase :: "string \<Rightarrow> string" where
  "toLowerCase s = map lower_char s"

definition is_space :: "char \<Rightarrow> bool" where
  "is_space c = (c \<in> set [CHR 0x20, CHR 0x09, CHR 0x0A, CHR 0x0B, CHR 0x0C, CHR 0x0D])"

definition trim :: "string \<Rightarrow> string" where
  "trim s = rev (dropWhile is_space (rev (dropWhile is_space s)))"

text \<open>\<open>s.split(sep)\<close> for a one-character separator; \<open>''''.split('-')\<close> is \<open>['''']\<close>.\<close>

fun split_on :: "char \<Rightarrow> string \<Rightarrow> string list" where
  "split_on sep [] = [[]]"
| "split_on sep (c # cs) =
     (if c = sep then [] # split_on sep cs
      else (case split_on sep cs of
              [] \<Rightarrow> [[c]]
            | p # ps \<Rightarrow> (c # p) # ps))"

text \<open>\<open>parts.join(sep)\<close> for a one-character separator.\<close>

fun join_with :: "char \<Rightarrow> string list \<Rightarrow> string" where
  "join_with sep [] = []"
| "join_with sep [p] = p"
| "join_with sep (p # q # ps) = p @ sep # join_with sep (q # ps)"

text \<open>\<open>s.replace(/[^a-z0-9]/g, '')\<close>.\<close>

definition strip_non_alnum :: "string \<Rightarrow> string" where
  "strip_non_alnum s = filter (\<lambda>c. c \<in> set lower_letters \<or> c \<in> set digit_chars) s"

text \<open>\<open>s.includes(t)\<close>: \<open>t\<close> occurs in \<open>s\<close> as a contiguous substring.\<close>

fun starts_with :: "string \<Rightarrow> string \<Rightarrow> bool" where
  "starts_with s [] = True"
| "starts_with [] (t # ts) = False"
| "starts_with (c # cs) (t # ts) = (c = t \<and> starts_with cs ts)"

fun includes_str :: "string \<Rightarrow> string \<Rightarrow> bool" where
  "includes_str [] t = (t = [])"
| "includes_str (c # cs) t = (starts_with (c # cs) t \<or> includes_str cs t)"

text \<open>
  Truthiness of a value of type \<open>string | null\<close>: \<open>null\<close> and the empty string are
  falsy, every other string is truthy.
\<close>

fun truthy :: "string option \<Rightarrow> bool" where
  "truthy None = False"
| "truthy (Some s) = (s \<noteq> [])"

text \<open>\<open>a || b\<close> on values of type \<open>string | null\<close>.\<close>

definition or_else :: "string option \<Rightarrow> string option \<Rightarrow> string option" where
  "or_else a b = (if truthy a then a else b)"

text \<open>\<open>a || ''\<close>, whose result is a string.\<close>

definition or_empty :: "string option \<Rightarrow> string" where
  "or_empty a = (case a of None \<Rightarrow> [] | Some s \<Rightarrow> s)"


section \<open>Serial extraction (entra-id route)\<close>

text \<open>
  \<^verbatim>\<open>
  const extractSerialNumber = (deviceName: string): string | null => {
    if (!deviceName) return null
    const parts = deviceName.split('-')
    if (parts.length >= 2) {
      return parts.slice(1).join('-').toUpperCase().trim()
    }
    return null
  }
  \<close>
\<close>

definition extractSerialNumber :: "string \<Rightarrow> string option" where
  "extractSerialNumber deviceName =
     (if deviceName = [] then None
      else let parts = split_on CHR ''-'' deviceName in
        if length parts \<ge> 2
        then Some (trim (toUpperCase (join_with CHR ''-'' (drop 1 parts))))
        else None)"


section \<open>Cron-secret check (all three sync routes)\<close>

text \<open>
  Each of the three POST handlers starts with the same lines:
  \<^verbatim>\<open>
  const authHeader = request.headers.get('authorization')
  const cronSecret = process.env.SYNC_CRON_SECRET
  if (authHeader && authHeader !== `Bearer ${cronSecret}`) {
    return NextResponse.json({ error: 'Unauthorized' }, { status: 401 })
  }
  \<close>
  \<open>headers.get\<close> returns \<open>null\<close> when the header is absent and the header's value
  (possibly the empty string) when it is present. An unset environment variable is
  \<open>undefined\<close>, which the template literal renders as the text \<open>undefined\<close>.
\<close>

datatype endpoint = SyncAll | SyncEntraId | SyncNinjaOne

datatype auth_result = Unauthorized401 | Proceed

definition bearer :: "string option \<Rightarrow> string" where
  "bearer cronSecret = ''Bearer '' @ (case cronSecret of None \<Rightarrow> ''undefined'' | Some s \<Rightarrow> s)"

definition cronSecretCheck :: "string option \<Rightarrow> string option \<Rightarrow> auth_result" where
  "cronSecretCheck authHeader cronSecret =
     (if truthy authHeader \<and> authHeader \<noteq> Some (bearer cronSecret)
      then Unauthorized401 else Proceed)"

text \<open>The first statement of each handler; the three texts are the same.\<close>

fun POST_auth :: "endpoint \<Rightarrow> string option \<Rightarrow> string option \<Rightarrow> auth_result" where
  "POST_auth SyncAll authHeader cronSecret = cronSecretCheck authHeader cronSecret"
| "POST_auth SyncEntraId authHeader cronSecret = cronSecretCheck authHeader cronSecret"
| "POST_auth SyncNinjaOne authHeader cronSecret = cronSecretCheck authHeader cronSecret"


section \<open>Final status of the unified sync (all route)\<close>

text \<open>
  \<^verbatim>\<open>
  const results = {
    azure: { recordsSynced: 0, recordsFailed: 0, errors: [] as string[] },
    ninjaone: { recordsSynced: 0, recordsFailed: 0, errors: [] as string[] }
  }
  ...
  const totalSynced = results.azure.recordsSynced + results.ninjaone.recordsSynced
  const totalFailed = results.azure.recordsFailed + results.ninjaone.recordsFailed
  const hasErrors = results.azure.errors.length > 0 || results.ninjaone.errors.length > 0
  const status = hasErrors && totalSynced === 0 ? 'failed' :
                 (hasErrors || totalFailed > 0 ? 'partial' : 'success')
  \<close>
  The counts are JavaScript numbers read from the stages' JSON answers; they are
  modelled as integers.
\<close>

record stage_result =
  recordsSynced :: int
  recordsFailed :: int
  errors :: "string list"

record sync_results =
  azure :: stage_result
  ninjaone :: stage_result

definition totalSynced :: "sync_results \<Rightarrow> int" where
  "totalSynced results = recordsSynced (azure results) + recordsSynced (ninjaone results)"

definition totalFailed :: "sync_results \<Rightarrow> int" where
  "totalFailed results = recordsFailed (azure results) + recordsFailed (ninjaone results)"

definition hasErrors :: "sync_results \<Rightarrow> bool" where
  "hasErrors results = (length (errors (azure results)) > 0 \<or> length (errors (ninjaone results)) > 0)"

definition finalStatus :: "sync_results \<Rightarrow> string" where
  "finalStatus results =
     (if hasErrors results \<and> totalSynced results = 0 then ''failed''
      else if hasErrors results \<or> totalFailed results > 0 then ''partial''
      else ''success'')"



section \<open>Sync Run records (sync_logs)\<close>

text \<open>
  A row of \<open>sync_logs\<close>. The status column is a VARCHAR that the routes fill with
  \<open>success\<close>, \<open>partial\<close> or \<open>failed\<close>; times are instants on a clock of natural
  numbers. Each route creates its row with
  \<^verbatim>\<open>
  .insert({ sync_type: ..., status: 'success', started_at: new Date().toISOString() })
  \<close>
  and the table's defaults fill the other columns (\<open>newSyncLog\<close>).
\<close>

record sync_log =
  log_id :: nat
  sync_type :: string
  status :: string
  records_synced :: int
  records_failed :: int
  error_message :: "string option"
  started_at :: nat
  completed_at :: "nat option"
  duration_seconds :: "int option"

fun sync_type_of :: "endpoint \<Rightarrow> string" where
  "sync_type_of SyncAll = ''all''"
| "sync_type_of SyncEntraId = ''entra_id''"
| "sync_type_of SyncNinjaOne = ''ninjaone''"

definition newSyncLog :: "endpoint \<Rightarrow> nat \<Rightarrow> nat \<Rightarrow> sync_log" where
  "newSyncLog ep newId started =
     \<lparr>log_id = newId, sync_type = sync_type_of ep, status = ''success'',
      records_synced = 0, records_failed = 0, error_message = None,
      started_at = started, completed_at = None, duration_seconds = None\<rparr>"

text \<open>
  The argument of an \<open>update\<close> call: the columns it sets. \<open>None\<close> is a key that the
  object does not have; \<open>error_message: null\<close> is \<open>Some None\<close>.
\<close>

record log_patch =
  set_status :: "string option"
  set_records_synced :: "int option"
  set_records_failed :: "int option"
  set_duration_seconds :: "int option"
  set_completed_at :: "nat option"
  set_error_message :: "string option option"

definition apply_patch :: "sync_log \<Rightarrow> log_patch \<Rightarrow> sync_log" where
  "apply_patch l p =
     l\<lparr>status := (case set_status p of Some s \<Rightarrow> s | None \<Rightarrow> status l),
       records_synced := (case set_records_synced p of Some n \<Rightarrow> n | None \<Rightarrow> records_synced l),
       records_failed := (case set_records_failed p of Some n \<Rightarrow> n | None \<Rightarrow> records_failed l),
       duration_seconds :=
         (case set_duration_seconds p of Some n \<Rightarrow> Some n | None \<Rightarrow> duration_seconds l),
       completed_at := (case set_completed_at p of Some t \<Rightarrow> Some t | None \<Rightarrow> completed_at l),
       error_message := (case set_error_message p of Some m \<Rightarrow> m | None \<Rightarrow> error_message l)\<rparr>"

text \<open>
  The store is the routes' environment. What it answers to a call is an input of the
  model. An update is answered in one of four ways: the row is written and returned
  (\<open>Stored\<close>); nothing is written and the answer has neither data nor error (\<open>NoRows\<close>);
  nothing is written and the answer carries an error object (\<open>Refused\<close>); the awaited call
  throws (\<open>Crashed\<close>). A select is answered with a row (which may lag behind the writes),
  with no data, with an error object, or it throws. The model keeps the row as stored and
  the list of updates the route has issued, in order.
\<close>

datatype upd_resp = Stored | NoRows | Refused string | Crashed string

datatype 'a reply = Data 'a | Null | Error string | Throw string

record run_state =
  row :: sync_log
  issued :: "log_patch list"

fun send_update :: "upd_resp \<Rightarrow> log_patch \<Rightarrow> run_state \<Rightarrow> run_state" where
  "send_update Stored p st = st\<lparr>row := apply_patch (row st) p, issued := issued st @ [p]\<rparr>"
| "send_update NoRows p st = st\<lparr>issued := issued st @ [p]\<rparr>"
| "send_update (Refused e) p st = st\<lparr>issued := issued st @ [p]\<rparr>"
| "send_update (Crashed m) p st = st\<lparr>issued := issued st @ [p]\<rparr>"

text \<open>\<open>data && data.completed_at\<close> on the answer of a select.\<close>

fun completed :: "sync_log reply \<Rightarrow> bool" where
  "completed (Data l) = (completed_at l \<noteq> None)"
| "completed Null = False"
| "completed (Error e) = False"
| "completed (Throw m) = False"

text \<open>\<open>parts.join(sep)\<close> for a separator that is a string.\<close>

fun join_str :: "string \<Rightarrow> string list \<Rightarrow> string" where
  "join_str sep [] = []"
| "join_str sep [p] = p"
| "join_str sep (p # q # ps) = p @ sep @ join_str sep (q # ps)"



section \<open>The unified sync (all route): closing the Sync Run\<close>

text \<open>
  One answer of the store for each call site of the closing code, named after the variable
  that receives it: the select before the update, the update itself, the retry with
  \<open>partial\<close>, the three verifying selects, the last-resort update with a fresh client and
  the select after it, the delayed select and the forced update of the other branch, the
  last-resort close of the catch block, and the two updates of the error path.
\<close>

record final_env =
  beforeUpdate :: "sync_log reply"
  updatedData :: upd_resp
  retryPartial :: upd_resp
  verifyData :: "sync_log reply"
  finalVerify :: "sync_log reply"
  statusCheckVerify :: "sync_log reply"
  lastResortData :: upd_resp
  finalVerifyAfter :: "sync_log reply"
  retryVerify :: "sync_log reply"
  forceUpdate :: upd_resp
  lastResortClose :: upd_resp
  failureUpdate :: upd_resp
  failureLastResort :: upd_resp

definition updateData :: "sync_results \<Rightarrow> nat \<Rightarrow> int \<Rightarrow> log_patch" where
  "updateData results now duration =
     \<lparr>set_status = Some (finalStatus results),
      set_records_synced = Some (totalSynced results),
      set_records_failed = Some (totalFailed results),
      set_duration_seconds = Some duration,
      set_completed_at = Some now,
      set_error_message = Some
        (if hasErrors results
         then (let m = join_str ''; '' (errors (azure results) @ errors (ninjaone results))
               in if m = [] then None else Some m)
         else None)\<rparr>"

definition partialClose :: "nat \<Rightarrow> log_patch" where
  "partialClose now =
     \<lparr>set_status = Some ''partial'', set_records_synced = None, set_records_failed = None,
      set_duration_seconds = None, set_completed_at = Some now, set_error_message = None\<rparr>"

definition forceData :: "sync_results \<Rightarrow> nat \<Rightarrow> int \<Rightarrow> log_patch" where
  "forceData results now duration =
     \<lparr>set_status = Some (finalStatus results),
      set_records_synced = Some (totalSynced results),
      set_records_failed = Some (totalFailed results),
      set_duration_seconds = Some duration,
      set_completed_at = Some now,
      set_error_message = None\<rparr>"

definition closeOnly :: "nat \<Rightarrow> log_patch" where
  "closeOnly now =
     \<lparr>set_status = None, set_records_synced = None, set_records_failed = None,
      set_duration_seconds = None, set_completed_at = Some now, set_error_message = None\<rparr>"

definition failedPatch :: "sync_results \<Rightarrow> string \<Rightarrow> nat \<Rightarrow> int \<Rightarrow> log_patch" where
  "failedPatch results message now duration =
     \<lparr>set_status = Some ''failed'', set_records_synced = None,
      set_records_failed = Some (recordsFailed (azure results) + recordsFailed (ninjaone results)),
      set_duration_seconds = Some duration,
      set_completed_at = Some now,
      set_error_message =
        Some (Some (if message = [] then ''Sync failed unexpectedly'' else message))\<rparr>"

text \<open>
  The body of the \<open>try\<close> that closes the run (all/route.ts, lines 398 to 590), from the
  innermost branch outwards. Each function returns the message of the exception that left
  the block, if any, and the state. Only the branches of the source that call the store or
  throw are kept; the others write to the console.
\<close>

definition lastResortFresh :: "final_env \<Rightarrow> sync_results \<Rightarrow> nat \<Rightarrow> int \<Rightarrow> run_state
    \<Rightarrow> string option \<times> run_state" where
  "lastResortFresh env results now duration st =
     (let st' = send_update (lastResortData env) (updateData results now duration) st in
      case lastResortData env of
        Crashed m \<Rightarrow> (Some m, st')
      | Refused e \<Rightarrow> (None, st')
      | NoRows \<Rightarrow> (None, st')
      | Stored \<Rightarrow>
          (case finalVerifyAfter env of
             Throw m \<Rightarrow> (Some m, st')
           | _ \<Rightarrow> (None, st')))"

definition verifyVisible :: "final_env \<Rightarrow> sync_results \<Rightarrow> nat \<Rightarrow> int \<Rightarrow> run_state
    \<Rightarrow> string option \<times> run_state" where
  "verifyVisible env results now duration st =
     (case finalVerify env of
        Throw m \<Rightarrow> (Some m, st)
      | fv \<Rightarrow>
          if completed fv then
            (case statusCheckVerify env of
               Throw m \<Rightarrow> (Some m, st)
             | sc \<Rightarrow>
                 if completed sc then (None, st)
                 else lastResortFresh env results now duration st)
          else (None, st))"

definition verifyRetry :: "final_env \<Rightarrow> sync_results \<Rightarrow> nat \<Rightarrow> int \<Rightarrow> run_state
    \<Rightarrow> string option \<times> run_state" where
  "verifyRetry env results now duration st =
     (case retryVerify env of
        Throw m \<Rightarrow> (Some m, st)
      | rv \<Rightarrow>
          if completed rv then (None, st)
          else
            (let st' = send_update (forceUpdate env) (forceData results now duration) st in
             case forceUpdate env of
               Crashed m \<Rightarrow> (Some m, st')
             | _ \<Rightarrow> (None, st')))"

definition tryFinalUpdate :: "final_env \<Rightarrow> sync_results \<Rightarrow> nat \<Rightarrow> int \<Rightarrow> run_state
    \<Rightarrow> string option \<times> run_state" where
  "tryFinalUpdate env results now duration st =
     (case beforeUpdate env of
        Throw m \<Rightarrow> (Some m, st)
      | Data before \<Rightarrow>
          (let st1 = send_update (updatedData env) (updateData results now duration) st in
           case updatedData env of
             Crashed m \<Rightarrow> (Some m, st1)
           | Refused e \<Rightarrow> (None, st1)
           | NoRows \<Rightarrow>
               (let st2 = send_update (retryPartial env) (partialClose now) st1 in
                case retryPartial env of
                  Crashed m \<Rightarrow> (Some m, st2)
                | _ \<Rightarrow> (None, st2))
           | Stored \<Rightarrow>
               (case verifyData env of
                  Throw m \<Rightarrow> (Some m, st1)
                | Error e \<Rightarrow> (None, st1)
                | v \<Rightarrow>
                    if completed v then verifyVisible env results now duration st1
                    else verifyRetry env results now duration st1))
      | _ \<Rightarrow> (Some ''Sync log not found'', st))"

text \<open>
  The \<open>try\<close> with its \<open>catch (updateErr)\<close>, lines 591 to 610: the last-resort close sets
  \<open>completed_at\<close> only, and whatever it answers or throws is written to the console.
\<close>

definition finalizeRun :: "final_env \<Rightarrow> sync_results \<Rightarrow> nat \<Rightarrow> int \<Rightarrow> run_state \<Rightarrow> run_state" where
  "finalizeRun env results now duration st =
     (case tryFinalUpdate env results now duration st of
        (None, st') \<Rightarrow> st'
      | (Some updateErr, st') \<Rightarrow> send_update (lastResortClose env) (closeOnly now) st')"

text \<open>
  The \<open>catch (error)\<close> of the whole task, lines 613 to 641:
  \<^verbatim>\<open>
  try {
    const { error: updateError } = await supabase.from('sync_logs')
      .update({ status: 'failed', records_failed: ..., duration_seconds: duration,
                completed_at: new Date().toISOString(),
                error_message: error.message || 'Sync failed unexpectedly' })
      .eq('id', syncId)
    if (updateError) {
      await supabase.from('sync_logs')
        .update({ completed_at: new Date().toISOString() }).eq('id', syncId)
    }
  } catch (updateErr: any) { console.error(...) }
  \<close>
\<close>

definition failRun :: "final_env \<Rightarrow> sync_results \<Rightarrow> string \<Rightarrow> nat \<Rightarrow> int \<Rightarrow> run_state \<Rightarrow> run_state" where
  "failRun env results message now duration st =
     (let st1 = send_update (failureUpdate env) (failedPatch results message now duration) st in
      case failureUpdate env of
        Refused e \<Rightarrow> send_update (failureLastResort env) (closeOnly now) st1
      | _ \<Rightarrow> st1)"

text \<open>
  The asynchronous task. Each stage calls another endpoint over HTTP, races it against a
  timer and polls the store; the model takes the outcome of each stage as an input: the
  value the stage left in \<open>results\<close> and the message of the exception that left the
  stage's block, if any. Between the stages the task checks the first stage's result
  (line 309). An exception of a stage, or of that check, enters \<open>failRun\<close>; otherwise the
  task computes the final status and enters \<open>finalizeRun\<close>.
\<close>

type_synonym stage_outcome = "stage_result \<times> string option"

definition noResult :: stage_result where
  "noResult = \<lparr>recordsSynced = 0, recordsFailed = 0, errors = []\<rparr>"

definition unifiedTask :: "final_env \<Rightarrow> stage_outcome \<Rightarrow> stage_outcome \<Rightarrow> nat \<Rightarrow> int
    \<Rightarrow> run_state \<Rightarrow> run_state" where
  "unifiedTask env azureStage ninjaStage now duration st =
     (let results1 = \<lparr>azure = fst azureStage, ninjaone = noResult\<rparr> in
      case snd azureStage of
        Some m \<Rightarrow> failRun env results1 m now duration st
      | None \<Rightarrow>
          if length (errors (azure results1)) > 0 \<or> recordsSynced (azure results1) = 0
          then failRun env results1
                 (''Azure sync failed: '' @
                    (if length (errors (azure results1)) > 0
                     then join_str ''; '' (errors (azure results1))
                     else ''No records synced''))
                 now duration st
          else
            (let results2 = results1\<lparr>ninjaone := fst ninjaStage\<rparr> in
             case snd ninjaStage of
               Some m \<Rightarrow> failRun env results2 m now duration st
             | None \<Rightarrow> finalizeRun env results2 now duration st))"

text \<open>
  The handler: the cron-secret check, the insert of the Sync Run, and the task, which runs
  after the handler has answered with the run's id.
\<close>

datatype http_response =
    Json401
  | Json500 string
  | JsonStarted nat
  | JsonSynced int int "string list"

definition POST_all :: "string option \<Rightarrow> string option \<Rightarrow> nat reply \<Rightarrow> nat \<Rightarrow> final_env
    \<Rightarrow> stage_outcome \<Rightarrow> stage_outcome \<Rightarrow> nat \<Rightarrow> int \<Rightarrow> http_response \<times> run_state option" where
  "POST_all authHeader cronSecret inserted started env azureStage ninjaStage now duration =
     (if POST_auth SyncAll authHeader cronSecret = Unauthorized401 then (Json401, None)
      else case inserted of
        Throw m \<Rightarrow> (Json500 (if m = [] then ''Failed to start unified sync'' else m), None)
      | Data syncId \<Rightarrow>
          (JsonStarted syncId,
           Some (unifiedTask env azureStage ninjaStage now duration
                   \<lparr>row = newSyncLog SyncAll syncId started, issued = []\<rparr>))
      | _ \<Rightarrow> (Json500 ''Failed to create sync log'', None))"



section \<open>The per-source syncs (entra-id and ninjaone routes): closing the Sync Run\<close>

text \<open>
  Both routes close their Sync Run the same way:
  \<^verbatim>\<open>
  try {
    ...                                   // the sync itself
    await supabase.from('sync_logs').update({
        status: recordsFailed > 0 ? 'partial' : 'success',
        records_synced: recordsSynced, records_failed: recordsFailed,
        error_message: errors.length > 0 ? errors.join('; ') : null,
        completed_at: new Date().toISOString(), duration_seconds: duration
      }).eq('id', syncLog!.id)
    return NextResponse.json({ success: true, recordsSynced, recordsFailed, ... })
  } catch (error: any) {
    await supabase.from('sync_logs').update({
        status: 'failed', records_synced: recordsSynced, records_failed: recordsFailed,
        error_message: error.message,
        completed_at: new Date().toISOString(), duration_seconds: duration
      }).eq('id', syncLog!.id)
    throw error
  }
  \<close>
  The sync itself is an input here: the counters and the error list it leaves, and the
  message of the exception that left it, if any.
\<close>

record source_env =
  successUpdate :: upd_resp
  failedUpdate :: upd_resp

record source_body =
  bodySynced :: int
  bodyFailed :: int
  bodyErrors :: "string list"
  bodyThrown :: "string option"

definition completionPatch :: "source_body \<Rightarrow> nat \<Rightarrow> int \<Rightarrow> log_patch" where
  "completionPatch body now duration =
     \<lparr>set_status = Some (if bodyFailed body > 0 then ''partial'' else ''success''),
      set_records_synced = Some (bodySynced body),
      set_records_failed = Some (bodyFailed body),
      set_duration_seconds = Some duration,
      set_completed_at = Some now,
      set_error_message = Some
        (if length (bodyErrors body) > 0 then Some (join_str ''; '' (bodyErrors body)) else None)\<rparr>"

definition failurePatch :: "source_body \<Rightarrow> string \<Rightarrow> nat \<Rightarrow> int \<Rightarrow> log_patch" where
  "failurePatch body message now duration =
     \<lparr>set_status = Some ''failed'',
      set_records_synced = Some (bodySynced body),
      set_records_failed = Some (bodyFailed body),
      set_duration_seconds = Some duration,
      set_completed_at = Some now,
      set_error_message = Some (Some message)\<rparr>"

fun default_message :: "endpoint \<Rightarrow> string" where
  "default_message SyncAll = ''Failed to start unified sync''"
| "default_message SyncEntraId = ''Failed to sync Entra ID data''"
| "default_message SyncNinjaOne = ''Failed to sync NinjaOne data''"

definition sourceFailed :: "endpoint \<Rightarrow> source_env \<Rightarrow> source_body \<Rightarrow> string \<Rightarrow> nat \<Rightarrow> int
    \<Rightarrow> run_state \<Rightarrow> http_response \<times> run_state" where
  "sourceFailed ep env body message now duration st =
     (let st' = send_update (failedUpdate env) (failurePatch body message now duration) st in
      case failedUpdate env of
        Crashed m \<Rightarrow> (Json500 (if m = [] then default_message ep else m), st')
      | _ \<Rightarrow> (Json500 (if message = [] then default_message ep else message), st'))"

definition sourceTask :: "endpoint \<Rightarrow> source_env \<Rightarrow> source_body \<Rightarrow> nat \<Rightarrow> int
    \<Rightarrow> run_state \<Rightarrow> http_response \<times> run_state" where
  "sourceTask ep env body now duration st =
     (case bodyThrown body of
        Some m \<Rightarrow> sourceFailed ep env body m now duration st
      | None \<Rightarrow>
          (let st' = send_update (successUpdate env) (completionPatch body now duration) st in
           case successUpdate env of
             Crashed m \<Rightarrow> sourceFailed ep env body m now duration st'
           | _ \<Rightarrow> (JsonSynced (bodySynced body) (bodyFailed body) (bodyErrors body), st')))"

definition POST_source :: "endpoint \<Rightarrow> string option \<Rightarrow> string option \<Rightarrow> nat reply \<Rightarrow> nat
    \<Rightarrow> source_env \<Rightarrow> source_body \<Rightarrow> nat \<Rightarrow> int \<Rightarrow> http_response \<times> run_state option" where
  "POST_source ep authHeader cronSecret inserted started env body now duration =
     (if POST_auth ep authHeader cronSecret = Unauthorized401 then (Json401, None)
      else case inserted of
        Throw m \<Rightarrow> (Json500 (if m = [] then default_message ep else m), None)
      | Data syncId \<Rightarrow>
          (let (response, st) =
                 sourceTask ep env body now duration
                   \<lparr>row = newSyncLog ep syncId started, issued = []\<rparr>
           in (response, Some st))
      | _ \<Rightarrow> (Json500 ''Cannot read properties of null (reading 'id')'', None))"

text \<open>A terminal update is one that sets \<open>completed_at\<close>.\<close>

definition terminal :: "log_patch \<Rightarrow> bool" where
  "terminal p = (set_completed_at p \<noteq> None)"

definition terminal_updates :: "run_state \<Rightarrow> nat" where
  "terminal_updates st = length (filter terminal (issued st))"

text \<open>
  A store cooperates with the unified run when it answers the select before the update
  with the row, writes the update, shows the write to the three selects that verify it, and
  writes the update of the error path; with a per-source run when it writes both updates.
\<close>

definition store_cooperates :: "final_env \<Rightarrow> bool" where
  "store_cooperates env =
     ((case beforeUpdate env of Data before \<Rightarrow> True | _ \<Rightarrow> False)
      \<and> updatedData env = Stored
      \<and> completed (verifyData env)
      \<and> completed (finalVerify env)
      \<and> completed (statusCheckVerify env)
      \<and> failureUpdate env = Stored)"

definition source_cooperates :: "source_env \<Rightarrow> bool" where
  "source_cooperates env = (successUpdate env = Stored \<and> failedUpdate env = Stored)"

definition closed_status :: "string \<Rightarrow> bool" where
  "closed_status s = (s = ''success'' \<or> s = ''partial'' \<or> s = ''failed'')"



subsection \<open>Scenarios\<close>

text \<open>
  Stores for the run with id 1 started at instant 100: one that cooperates; one that
  answers the final update with an error object; one whose selects lag behind the write;
  one whose update on the error path throws.
\<close>

definition cooperative_env :: final_env where
  "cooperative_env =
     \<lparr>beforeUpdate = Data (newSyncLog SyncAll 1 100),
      updatedData = Stored,
      retryPartial = Stored,
      verifyData = Data ((newSyncLog SyncAll 1 100)\<lparr>completed_at := Some 200\<rparr>),
      finalVerify = Data ((newSyncLog SyncAll 1 100)\<lparr>completed_at := Some 200\<rparr>),
      statusCheckVerify = Data ((newSyncLog SyncAll 1 100)\<lparr>completed_at := Some 200\<rparr>),
      lastResortData = Stored,
      finalVerifyAfter = Data ((newSyncLog SyncAll 1 100)\<lparr>completed_at := Some 200\<rparr>),
      retryVerify = Data ((newSyncLog SyncAll 1 100)\<lparr>completed_at := Some 200\<rparr>),
      forceUpdate = Stored,
      lastResortClose = Stored,
      failureUpdate = Stored,
      failureLastResort = Stored\<rparr>"

definition refusing_env :: final_env where
  "refusing_env = cooperative_env\<lparr>updatedData := Refused ''fetch failed''\<rparr>"

definition lagging_env :: final_env where
  "lagging_env =
     cooperative_env\<lparr>verifyData := Data (newSyncLog SyncAll 1 100),
                      retryVerify := Data (newSyncLog SyncAll 1 100)\<rparr>"

definition crashing_env :: final_env where
  "crashing_env = cooperative_env\<lparr>failureUpdate := Crashed ''fetch failed''\<rparr>"

definition stage_ok :: "int \<Rightarrow> stage_outcome" where
  "stage_ok n = (\<lparr>recordsSynced = n, recordsFailed = 0, errors = []\<rparr>, None)"

definition stage_thrown :: "string \<Rightarrow> stage_outcome" where
  "stage_thrown m = (noResult, Some m)"


section \<open>The store: devices and assignment history\<close>

text \<open>
  A row of \<open>devices\<close> and a row of \<open>device_assignments_history\<close>, with the columns the
  sync routes read or write. Primary keys and foreign keys (UUIDs in the database) are
  natural numbers; the two external ids, names and serial numbers are strings; instants are
  numbers. A table is the list of its rows, and a select without \<open>order\<close> returns the
  matching rows in the order of that list. \<open>next_id\<close> is the key the next inserted row
  receives.
\<close>

record device =
  dev_id :: nat
  azure_device_id :: "string option"
  ninja_device_id :: "string option"
  employee_id :: "nat option"
  device_name :: "string option"
  serial_number :: "string option"
  device_type :: "string option"
  manufacturer :: "string option"
  model :: "string option"
  os_name :: "string option"
  os_version :: "string option"
  last_seen :: "nat option"
  dev_status :: string
  is_in_ninja :: bool
  last_synced_at :: nat

record assignment =
  h_id :: nat
  h_device_id :: nat
  h_employee_id :: nat
  h_azure_device_id :: "string option"
  registered_date :: int
  assignment_date :: nat
  unassignment_date :: "nat option"
  is_current :: bool
  sync_id :: nat

record store =
  devices :: "device list"
  history :: "assignment list"
  next_id :: nat

definition empty_store :: store where
  "empty_store = \<lparr>devices = [], history = [], next_id = 0\<rparr>"

text \<open>
  The data of \<open>.single()\<close> and of \<open>.maybeSingle()\<close>: the row when exactly one row matches,
  \<open>null\<close> otherwise (with no row or with several the two differ only in the error object,
  which the routes log).
\<close>

definition single :: "'a list \<Rightarrow> 'a option" where
  "single rows = (case rows of [r] \<Rightarrow> Some r | _ \<Rightarrow> None)"

text \<open>The first element of an array, \<open>rows[0]\<close>, when \<open>rows.length > 0\<close>.\<close>

definition first_row :: "'a list \<Rightarrow> 'a option" where
  "first_row rows = (case rows of [] \<Rightarrow> None | r # rs \<Rightarrow> Some r)"

text \<open>
  \<open>.ilike(column, pattern)\<close>: PostgreSQL's case-insensitive LIKE. In the pattern \<open>%\<close>
  (and \<open>*\<close>, its alias in the query string) matches any run of characters, \<open>_\<close> any one
  character, and a backslash takes the next character literally. A null column matches
  nothing.
\<close>

fun like_match :: "string \<Rightarrow> string \<Rightarrow> bool" where
  "like_match [] [] = True"
| "like_match [] (c # cs) = False"
| "like_match (p # ps) [] = ((p = CHR ''%'' \<or> p = CHR ''*'') \<and> like_match ps [])"
| "like_match (p # ps) (c # cs) =
     (if p = CHR ''%'' \<or> p = CHR ''*'' then like_match ps (c # cs) \<or> like_match (p # ps) cs
      else if p = CHR ''_'' then like_match ps cs
      else if p = CHR 0x5C then (case ps of [] \<Rightarrow> False | q # qs \<Rightarrow> q = c \<and> like_match qs cs)
      else p = c \<and> like_match ps cs)"

definition ilike :: "string option \<Rightarrow> string \<Rightarrow> bool" where
  "ilike column pattern =
     (case column of None \<Rightarrow> False | Some v \<Rightarrow> like_match (toLowerCase pattern) (toLowerCase v))"

text \<open>Writes. An update sets columns of the rows that match; an insert appends a row
  under a fresh key; deleting a device deletes its history rows too (\<open>ON DELETE CASCADE\<close>).\<close>

definition update_devices :: "(device \<Rightarrow> bool) \<Rightarrow> (device \<Rightarrow> device) \<Rightarrow> store \<Rightarrow> store" where
  "update_devices match change s =
     s\<lparr>devices := map (\<lambda>d. if match d then change d else d) (devices s)\<rparr>"

definition update_history :: "(assignment \<Rightarrow> bool) \<Rightarrow> (assignment \<Rightarrow> assignment) \<Rightarrow> store \<Rightarrow> store" where
  "update_history match change s =
     s\<lparr>history := map (\<lambda>h. if match h then change h else h) (history s)\<rparr>"

definition insert_device :: "device \<Rightarrow> store \<Rightarrow> store" where
  "insert_device d s =
     s\<lparr>devices := devices s @ [d\<lparr>dev_id := next_id s\<rparr>], next_id := Suc (next_id s)\<rparr>"

definition insert_history :: "assignment \<Rightarrow> store \<Rightarrow> store" where
  "insert_history h s =
     s\<lparr>history := history s @ [h\<lparr>h_id := next_id s\<rparr>], next_id := Suc (next_id s)\<rparr>"

definition delete_device :: "nat \<Rightarrow> store \<Rightarrow> store" where
  "delete_device x s =
     s\<lparr>devices := filter (\<lambda>d. dev_id d \<noteq> x) (devices s),
       history := filter (\<lambda>h. h_device_id h \<noteq> x) (history s)\<rparr>"

datatype match_rule = ByExternalId | BySerial | ByName


section \<open>Directory sync (entra-id route): resolving and writing one device\<close>

record azure_device =
  az_id :: string
  az_displayName :: "string option"
  az_operatingSystem :: "string option"
  az_operatingSystemVersion :: "string option"
  az_isManaged :: "bool option"
  az_registeredDateTime :: "int option"
  az_approximateLastSignInDateTime :: "int option"

definition entraByAzureId :: "azure_device \<Rightarrow> store \<Rightarrow> device option" where
  "entraByAzureId azureDevice s =
     single (filter (\<lambda>d. azure_device_id d = Some (az_id azureDevice)) (devices s))"

definition entraBySerial :: "string \<Rightarrow> store \<Rightarrow> device option" where
  "entraBySerial serialNumber s =
     first_row (filter (\<lambda>d. ilike (serial_number d) serialNumber) (devices s))"

definition entraByName :: "string \<Rightarrow> store \<Rightarrow> device option" where
  "entraByName displayName s =
     single (filter (\<lambda>d. ilike (device_name d) displayName \<and> azure_device_id d = None) (devices s))"

definition entraFindExisting :: "azure_device \<Rightarrow> store \<Rightarrow> (match_rule \<times> device) option" where
  "entraFindExisting azureDevice s =
     (let existing1 = map_option (Pair ByExternalId) (entraByAzureId azureDevice s);
          serialNumber = extractSerialNumber (or_empty (az_displayName azureDevice));
          existing2 =
            (if existing1 = None \<and> truthy serialNumber
             then map_option (Pair BySerial) (entraBySerial (or_empty serialNumber) s)
             else existing1);
          existing3 =
            (if existing2 = None \<and> truthy (az_displayName azureDevice)
             then map_option (Pair ByName) (entraByName (or_empty (az_displayName azureDevice)) s)
             else existing2)
      in existing3)"

text \<open>
  \<open>deviceData\<close> of the Directory sync: the columns every write sets, and \<open>employee_id\<close>,
  which is present only when the stored row has one (\<open>None\<close>: the key is absent). A row
  found by its external id or by its name was selected without \<open>serial_number\<close>, so that
  \<open>existingDevice?.serial_number\<close> is a value only for a row found by its serial.
\<close>

record entra_data =
  ed_azure_device_id :: string
  ed_device_name :: "string option"
  ed_serial_number :: "string option"
  ed_device_type :: "string option"
  ed_os_name :: "string option"
  ed_os_version :: "string option"
  ed_status :: string
  ed_last_synced_at :: nat
  ed_is_in_ninja :: bool
  ed_employee_id :: "nat option"

definition entraDeviceData :: "azure_device \<Rightarrow> (match_rule \<times> device) option \<Rightarrow> nat \<Rightarrow> entra_data" where
  "entraDeviceData azureDevice existing now =
     \<lparr>ed_azure_device_id = az_id azureDevice,
      ed_device_name = or_else (az_displayName azureDevice) None,
      ed_serial_number =
        or_else (extractSerialNumber (or_empty (az_displayName azureDevice)))
          (or_else
             (case existing of
                Some (rule, existingDevice) \<Rightarrow>
                  if rule = BySerial then serial_number existingDevice else None
              | None \<Rightarrow> None)
             None),
      ed_device_type = or_else (az_operatingSystem azureDevice) None,
      ed_os_name = or_else (az_operatingSystem azureDevice) None,
      ed_os_version = or_else (az_operatingSystemVersion azureDevice) None,
      ed_status = (if az_isManaged azureDevice = Some True then ''active'' else ''inactive''),
      ed_last_synced_at = now,
      ed_is_in_ninja =
        (case existing of Some (rule, existingDevice) \<Rightarrow> is_in_ninja existingDevice | None \<Rightarrow> False),
      ed_employee_id =
        (case existing of Some (rule, existingDevice) \<Rightarrow> employee_id existingDevice | None \<Rightarrow> None)\<rparr>"

definition write_entra_data :: "entra_data \<Rightarrow> device \<Rightarrow> device" where
  "write_entra_data ed d =
     d\<lparr>azure_device_id := Some (ed_azure_device_id ed),
       device_name := ed_device_name ed,
       serial_number := ed_serial_number ed,
       device_type := ed_device_type ed,
       os_name := ed_os_name ed,
       os_version := ed_os_version ed,
       dev_status := ed_status ed,
       last_synced_at := ed_last_synced_at ed,
       is_in_ninja := ed_is_in_ninja ed,
       employee_id := (case ed_employee_id ed of Some e \<Rightarrow> Some e | None \<Rightarrow> employee_id d)\<rparr>"

definition blank_device :: device where
  "blank_device =
     \<lparr>dev_id = 0, azure_device_id = None, ninja_device_id = None, employee_id = None,
      device_name = None, serial_number = None, device_type = None, manufacturer = None,
      model = None, os_name = None, os_version = None, last_seen = None,
      dev_status = ''active'', is_in_ninja = False, last_synced_at = 0\<rparr>"

definition entraUpsertDevice :: "azure_device \<Rightarrow> nat \<Rightarrow> store \<Rightarrow> store" where
  "entraUpsertDevice azureDevice now s =
     (let existing = entraFindExisting azureDevice s;
          deviceData = entraDeviceData azureDevice existing now
      in case existing of
           Some (rule, existingDevice) \<Rightarrow>
             update_devices (\<lambda>d. dev_id d = dev_id existingDevice) (write_entra_data deviceData) s
         | None \<Rightarrow> insert_device (write_entra_data deviceData blank_device) s)"


section \<open>Directory sync: the relationships observed in a run\<close>

record relationship =
  rel_employee_id :: nat
  rel_employee_name :: string
  rel_registered_date :: int

type_synonym relationships = "(string \<times> relationship list) list"

definition track :: "string \<Rightarrow> relationship \<Rightarrow> relationships \<Rightarrow> relationships" where
  "track azureDeviceId rel m =
     (if azureDeviceId \<in> set (map fst m)
      then map (\<lambda>(k, rels). if k = azureDeviceId then (k, rels @ [rel]) else (k, rels)) m
      else m @ [(azureDeviceId, [rel])])"

definition registeredDate :: "azure_device \<Rightarrow> int \<Rightarrow> int" where
  "registeredDate azureDevice now =
     (case az_registeredDateTime azureDevice of
        Some t \<Rightarrow> t
      | None \<Rightarrow> (case az_approximateLastSignInDateTime azureDevice of Some t \<Rightarrow> t | None \<Rightarrow> now))"

definition observeDevice :: "nat \<Rightarrow> string \<Rightarrow> azure_device \<Rightarrow> nat \<Rightarrow> relationships \<times> store
    \<Rightarrow> relationships \<times> store" where
  "observeDevice employee employee_name azureDevice now ms =
     (track (az_id azureDevice)
        \<lparr>rel_employee_id = employee, rel_employee_name = employee_name,
         rel_registered_date = registeredDate azureDevice (int now)\<rparr>
        (fst ms),
      entraUpsertDevice azureDevice now (snd ms))"


section \<open>Directory sync: unregistered devices and conflict resolution\<close>

definition closeAssignment :: "nat \<Rightarrow> nat \<Rightarrow> nat \<Rightarrow> store \<Rightarrow> store" where
  "closeAssignment device employee now s =
     update_history
       (\<lambda>h. h_device_id h = device \<and> h_employee_id h = employee \<and> is_current h)
       (\<lambda>h. h\<lparr>is_current := False, unassignment_date := Some now\<rparr>)
       s"

definition setEmployee :: "nat \<Rightarrow> nat option \<Rightarrow> store \<Rightarrow> store" where
  "setEmployee device employee s =
     update_devices (\<lambda>d. dev_id d = device) (\<lambda>d. d\<lparr>employee_id := employee\<rparr>) s"

definition unregisteredDevices :: "relationships \<Rightarrow> store \<Rightarrow> device list" where
  "unregisteredDevices deviceUserRelationships s =
     filter
       (\<lambda>device. truthy (azure_device_id device)
          \<and> or_empty (azure_device_id device) \<notin> set (map fst deviceUserRelationships)
          \<and> employee_id device \<noteq> None)
       (filter (\<lambda>d. azure_device_id d \<noteq> None) (devices s))"

definition unregisterDevice :: "nat \<Rightarrow> device \<Rightarrow> store \<Rightarrow> store" where
  "unregisterDevice now device s =
     setEmployee (dev_id device) None
       (case employee_id device of
          Some e \<Rightarrow> closeAssignment (dev_id device) e now s
        | None \<Rightarrow> s)"

definition unregisterAll :: "relationships \<Rightarrow> nat \<Rightarrow> store \<Rightarrow> store" where
  "unregisterAll deviceUserRelationships now s =
     fold (unregisterDevice now) (unregisteredDevices deviceUserRelationships s) s"

definition sortedRelationships :: "relationship list \<Rightarrow> relationship list" where
  "sortedRelationships rels = sort_key (\<lambda>r. - rel_registered_date r) rels"

definition recordCurrent :: "device \<Rightarrow> string \<Rightarrow> relationship \<Rightarrow> nat \<Rightarrow> nat \<Rightarrow> store \<Rightarrow> store" where
  "recordCurrent deviceRecord azureDeviceId winningRelationship now syncLogId s =
     (case single (filter
              (\<lambda>h. h_device_id h = dev_id deviceRecord
                 \<and> h_employee_id h = rel_employee_id winningRelationship \<and> is_current h)
              (history s)) of
        None \<Rightarrow>
          insert_history
            \<lparr>h_id = 0, h_device_id = dev_id deviceRecord,
             h_employee_id = rel_employee_id winningRelationship,
             h_azure_device_id = Some azureDeviceId,
             registered_date = rel_registered_date winningRelationship,
             assignment_date = now, unassignment_date = None,
             is_current = True, sync_id = syncLogId\<rparr>
            s
      | Some existingHistory \<Rightarrow>
          update_history (\<lambda>h. h_id h = h_id existingHistory)
            (\<lambda>h. h\<lparr>registered_date := rel_registered_date winningRelationship\<rparr>)
            s)"

definition recordOther :: "device \<Rightarrow> string \<Rightarrow> nat \<Rightarrow> nat \<Rightarrow> relationship \<Rightarrow> store \<Rightarrow> store" where
  "recordOther deviceRecord azureDeviceId now syncLogId rel s =
     (case single (filter
              (\<lambda>h. h_device_id h = dev_id deviceRecord \<and> h_employee_id h = rel_employee_id rel)
              (history s)) of
        None \<Rightarrow>
          insert_history
            \<lparr>h_id = 0, h_device_id = dev_id deviceRecord,
             h_employee_id = rel_employee_id rel,
             h_azure_device_id = Some azureDeviceId,
             registered_date = rel_registered_date rel,
             assignment_date = now, unassignment_date = None,
             is_current = False, sync_id = syncLogId\<rparr>
            s
      | Some existingRelHistory \<Rightarrow> s)"

definition closePrevious :: "device \<Rightarrow> nat \<Rightarrow> nat \<Rightarrow> store \<Rightarrow> store" where
  "closePrevious deviceRecord newEmployeeId now s =
     (case employee_id deviceRecord of
        Some previousEmployeeId \<Rightarrow>
          if previousEmployeeId \<noteq> newEmployeeId
          then closeAssignment (dev_id deviceRecord) previousEmployeeId now s
          else s
      | None \<Rightarrow> s)"

definition resolveDevice :: "nat \<Rightarrow> nat \<Rightarrow> string \<times> relationship list \<Rightarrow> store \<Rightarrow> store" where
  "resolveDevice now syncLogId entry s =
     (let azureDeviceId = fst entry; relationships = snd entry in
      case single (filter (\<lambda>d. azure_device_id d = Some azureDeviceId) (devices s)) of
        None \<Rightarrow> s
      | Some deviceRecord \<Rightarrow>
          (case sortedRelationships relationships of
             [] \<Rightarrow> s
           | winningRelationship # others \<Rightarrow>
               fold (recordOther deviceRecord azureDeviceId now syncLogId) others
                 (recordCurrent deviceRecord azureDeviceId winningRelationship now syncLogId
                    (setEmployee (dev_id deviceRecord) (Some (rel_employee_id winningRelationship))
                       (closePrevious deviceRecord (rel_employee_id winningRelationship) now s)))))"

definition reconcile :: "relationships \<Rightarrow> nat \<Rightarrow> nat \<Rightarrow> store \<Rightarrow> store" where
  "reconcile deviceUserRelationships now syncLogId s =
     fold (resolveDevice now syncLogId) deviceUserRelationships
       (unregisterAll deviceUserRelationships now s)"


section \<open>Device sync (ninjaone route): resolving and writing one device\<close>

record ninja_device =
  nd_id :: string
  nd_systemName :: "string option"
  nd_dnsName :: "string option"
  nd_nodeClass :: "string option"
  nd_lastContact :: "nat option"

record ninja_details =
  sys_serialNumber :: "string option"
  sys_biosSerialNumber :: "string option"
  sys_manufacturer :: "string option"
  sys_model :: "string option"
  det_os_name :: "string option"
  det_os_version :: "string option"

definition ninjaDeviceName :: "ninja_device \<Rightarrow> string" where
  "ninjaDeviceName device =
     trim (toLowerCase (or_empty (or_else (nd_systemName device) (nd_dnsName device))))"

definition ninjaSerialNumber :: "ninja_details \<Rightarrow> string" where
  "ninjaSerialNumber deviceDetails =
     trim (or_empty (or_else (sys_serialNumber deviceDetails) (sys_biosSerialNumber deviceDetails)))"

definition byNinjaId :: "ninja_device \<Rightarrow> store \<Rightarrow> device option" where
  "byNinjaId device s =
     single (filter (\<lambda>d. ninja_device_id d = Some (nd_id device)) (devices s))"

definition unmatchedAzureBySerial :: "ninja_details \<Rightarrow> store \<Rightarrow> device option" where
  "unmatchedAzureBySerial deviceDetails s =
     (if ninjaSerialNumber deviceDetails \<noteq> []
      then first_row
             (filter
                (\<lambda>d. azure_device_id d \<noteq> None \<and> ninja_device_id d = None
                   \<and> ilike (serial_number d) (trim (toUpperCase (ninjaSerialNumber deviceDetails))))
                (devices s))
      else None)"

definition namesMatch :: "string \<Rightarrow> device \<Rightarrow> bool" where
  "namesMatch deviceName candidateDevice =
     (let candidateName = trim (toLowerCase (or_empty (device_name candidateDevice))) in
      candidateName \<noteq> []
      \<and> (strip_non_alnum deviceName = strip_non_alnum candidateName
         \<or> includes_str deviceName candidateName
         \<or> includes_str candidateName deviceName))"

definition byName :: "string \<Rightarrow> store \<Rightarrow> device option" where
  "byName deviceName s =
     (case single (filter (\<lambda>d. ilike (device_name d) deviceName) (devices s)) of
        Some byNameExact \<Rightarrow> Some byNameExact
      | None \<Rightarrow> find (namesMatch deviceName) (devices s))"

definition ninjaFindExisting :: "ninja_device \<Rightarrow> ninja_details \<Rightarrow> store
    \<Rightarrow> (match_rule \<times> device) option" where
  "ninjaFindExisting device deviceDetails s =
     (let existing1 = map_option (Pair ByExternalId) (byNinjaId device s);
          existing2 =
            (if existing1 = None
             then map_option (Pair BySerial) (unmatchedAzureBySerial deviceDetails s)
             else existing1);
          existing3 =
            (if existing2 = None
             then map_option (Pair BySerial) (unmatchedAzureBySerial deviceDetails s)
             else existing2);
          existing4 =
            (if existing3 = None \<and> ninjaDeviceName device \<noteq> []
             then map_option (Pair ByName) (byName (ninjaDeviceName device) s)
             else existing3)
      in existing4)"

text \<open>
  \<open>deviceData\<close>: the columns every write sets, and the two keys that are present only
  when a value was copied from a stored row (\<open>None\<close>: the key is absent).
\<close>

record ninja_data =
  dd_ninja_device_id :: string
  dd_device_name :: string
  dd_device_type :: "string option"
  dd_manufacturer :: "string option"
  dd_model :: "string option"
  dd_serial_number :: "string option"
  dd_os_name :: "string option"
  dd_os_version :: "string option"
  dd_last_seen :: "nat option"
  dd_last_synced_at :: nat
  dd_employee_id :: "nat option"
  dd_azure_device_id :: "string option"

definition ninjaDeviceData :: "ninja_device \<Rightarrow> ninja_details \<Rightarrow> device option \<Rightarrow> nat \<Rightarrow> ninja_data" where
  "ninjaDeviceData device deviceDetails existingDevice now =
     \<lparr>dd_ninja_device_id = nd_id device,
      dd_device_name =
        or_empty (or_else (nd_systemName device)
          (or_else (nd_dnsName device)
            (or_else (case existingDevice of Some e \<Rightarrow> device_name e | None \<Rightarrow> None)
               (Some ''Unknown Device'')))),
      dd_device_type = or_else (nd_nodeClass device) None,
      dd_manufacturer = or_else (sys_manufacturer deviceDetails) None,
      dd_model = or_else (sys_model deviceDetails) None,
      dd_serial_number =
        or_else (sys_serialNumber deviceDetails) (or_else (sys_biosSerialNumber deviceDetails) None),
      dd_os_name = or_else (det_os_name deviceDetails) None,
      dd_os_version = or_else (det_os_version deviceDetails) None,
      dd_last_seen = nd_lastContact device,
      dd_last_synced_at = now,
      dd_employee_id = (case existingDevice of Some e \<Rightarrow> employee_id e | None \<Rightarrow> None),
      dd_azure_device_id =
        (case existingDevice of
           Some e \<Rightarrow> if truthy (azure_device_id e) then azure_device_id e else None
         | None \<Rightarrow> None)\<rparr>"

definition write_ninja_data :: "ninja_data \<Rightarrow> device \<Rightarrow> device" where
  "write_ninja_data dd d =
     d\<lparr>ninja_device_id := Some (dd_ninja_device_id dd),
       device_name := Some (dd_device_name dd),
       device_type := dd_device_type dd,
       manufacturer := dd_manufacturer dd,
       model := dd_model dd,
       serial_number := dd_serial_number dd,
       os_name := dd_os_name dd,
       os_version := dd_os_version dd,
       last_seen := dd_last_seen dd,
       dev_status := ''active'',
       is_in_ninja := True,
       last_synced_at := dd_last_synced_at dd,
       employee_id := (case dd_employee_id dd of Some e \<Rightarrow> Some e | None \<Rightarrow> employee_id d),
       azure_device_id :=
         (case dd_azure_device_id dd of Some a \<Rightarrow> Some a | None \<Rightarrow> azure_device_id d)\<rparr>"

definition updateDevice :: "nat \<Rightarrow> ninja_data \<Rightarrow> store \<Rightarrow> store" where
  "updateDevice target dd s = update_devices (\<lambda>d. dev_id d = target) (write_ninja_data dd) s"

definition insertDevice :: "ninja_data \<Rightarrow> store \<Rightarrow> store" where
  "insertDevice dd s =
     insert_device
       (write_ninja_data dd blank_device) s"

text \<open>
  The paged select of the merge (lines 311 to 327): Azure devices not bound to another
  NinjaOne device, ordered by name (rows without a name last), read in pages of 1000 while
  a page is full and the offset is below 10000.
\<close>

definition orderByDeviceName :: "device list \<Rightarrow> device list" where
  "orderByDeviceName rows =
     sort_key (\<lambda>d. or_empty (device_name d)) (filter (\<lambda>d. device_name d \<noteq> None) rows)
       @ filter (\<lambda>d. device_name d = None) rows"

function fetchAzureBatches :: "device list \<Rightarrow> nat \<Rightarrow> device list \<Rightarrow> device list" where
  "fetchAzureBatches rows offset allAzureDevices =
     (if offset < 10000 then
        (let azureDevicesBatch = take 1000 (drop offset rows) in
         if length azureDevicesBatch > 0 then
           (if length azureDevicesBatch = 1000
            then fetchAzureBatches rows (offset + 1000) (allAzureDevices @ azureDevicesBatch)
            else allAzureDevices @ azureDevicesBatch)
         else allAzureDevices)
      else allAzureDevices)"
  by pat_completeness auto
termination
  by (relation "measure (\<lambda>(rows, offset, allAzureDevices). 10000 - offset)") auto

declare fetchAzureBatches.simps [simp del]

definition mergeCandidates :: "ninja_device \<Rightarrow> store \<Rightarrow> device list" where
  "mergeCandidates device s =
     fetchAzureBatches
       (orderByDeviceName
          (filter
             (\<lambda>d. azure_device_id d \<noteq> None
                \<and> (ninja_device_id d = None \<or> ninja_device_id d = Some (nd_id device)))
             (devices s)))
       0 []"

definition serialMatchesName :: "ninja_device \<Rightarrow> string \<Rightarrow> device \<Rightarrow> bool" where
  "serialMatchesName device normalizedNinjaSerial azureDevice =
     (\<not> (truthy (ninja_device_id azureDevice) \<and> ninja_device_id azureDevice \<noteq> Some (nd_id device))
      \<and> (let azureDeviceName = trim (or_empty (device_name azureDevice));
              nameParts = split_on CHR ''-'' azureDeviceName;
              normalizedAzureSerial =
                (if length nameParts \<ge> 2
                 then strip_non_alnum (trim (toLowerCase (join_with CHR ''-'' (drop 1 nameParts))))
                 else []);
              normalizedAzureName = strip_non_alnum (toLowerCase azureDeviceName);
              containsSerial = includes_str normalizedAzureName normalizedNinjaSerial
          in normalizedNinjaSerial \<noteq> []
             \<and> ((normalizedAzureSerial \<noteq> [] \<and> normalizedNinjaSerial = normalizedAzureSerial)
                \<or> (length normalizedNinjaSerial \<ge> 4 \<and> containsSerial))))"

text \<open>
  The last serial lookup (lines 432 to 463), made when no rule has matched: the Azure
  device with that serial, the most recently synced one when there are several, unless it
  is bound to another NinjaOne device.
\<close>

definition azureDeviceBySerial :: "ninja_device \<Rightarrow> ninja_details \<Rightarrow> store \<Rightarrow> device option" where
  "azureDeviceBySerial device deviceDetails s =
     (if ninjaSerialNumber deviceDetails \<noteq> [] then
        (let azureDevicesBySerial =
               filter
                 (\<lambda>d. azure_device_id d \<noteq> None
                    \<and> (ninja_device_id d = None \<or> ninja_device_id d = Some (nd_id device))
                    \<and> ilike (serial_number d) (trim (toUpperCase (ninjaSerialNumber deviceDetails))))
                 (devices s)
         in case (if length azureDevicesBySerial > 1
                  then sort_key (\<lambda>d. - int (last_synced_at d)) azureDevicesBySerial
                  else azureDevicesBySerial) of
              [] \<Rightarrow> None
            | bestMatch # rest \<Rightarrow>
                if truthy (ninja_device_id bestMatch) \<and> ninja_device_id bestMatch \<noteq> Some (nd_id device)
                then None
                else Some bestMatch)
      else None)"

definition ninjaSyncDevice :: "ninja_device \<Rightarrow> ninja_details \<Rightarrow> nat \<Rightarrow> store \<Rightarrow> store" where
  "ninjaSyncDevice device deviceDetails now s =
     (case map_option snd (ninjaFindExisting device deviceDetails s) of
        Some existingDevice \<Rightarrow>
          (let dd = ninjaDeviceData device deviceDetails (Some existingDevice) now in
           if \<not> truthy (azure_device_id existingDevice) \<and> ninjaSerialNumber deviceDetails \<noteq> [] then
             (case find (serialMatchesName device
                           (strip_non_alnum (toLowerCase (ninjaSerialNumber deviceDetails))))
                     (mergeCandidates device s) of
                Some azureDevice \<Rightarrow>
                  updateDevice (dev_id azureDevice)
                    (if truthy (azure_device_id azureDevice)
                     then dd\<lparr>dd_azure_device_id := azure_device_id azureDevice,
                             dd_employee_id :=
                               (case employee_id azureDevice of
                                  Some e \<Rightarrow> Some e
                                | None \<Rightarrow> dd_employee_id dd)\<rparr>
                     else dd)
                    (delete_device (dev_id existingDevice) s)
              | None \<Rightarrow> updateDevice (dev_id existingDevice) dd s)
           else updateDevice (dev_id existingDevice) dd s)
      | None \<Rightarrow>
          (let dd = ninjaDeviceData device deviceDetails None now in
           case azureDeviceBySerial device deviceDetails s of
             Some existingDevice \<Rightarrow>
               updateDevice (dev_id existingDevice)
                 (dd\<lparr>dd_azure_device_id :=
                        (if truthy (azure_device_id existingDevice)
                         then azure_device_id existingDevice else dd_azure_device_id dd),
                      dd_employee_id :=
                        (case employee_id existingDevice of
                           Some e \<Rightarrow> Some e
                         | None \<Rightarrow> dd_employee_id dd)\<rparr>)
                 s
           | None \<Rightarrow> insertDevice dd s))"

definition ninjaSyncAll :: "(ninja_device \<times> ninja_details) list \<Rightarrow> nat \<Rightarrow> store \<Rightarrow> store" where
  "ninjaSyncAll ninjaDevices now s =
     fold (\<lambda>(device, deviceDetails). ninjaSyncDevice device deviceDetails now) ninjaDevices s"


section \<open>The store invariant and the entries of a device\<close>

text \<open>
  What every store built by the two syncs from an empty database satisfies: primary keys
  are distinct and below \<open>next_id\<close>, no row has the empty string as \<open>azure_device_id\<close>,
  every current history row belongs to a stored device whose \<open>employee_id\<close> is the row's
  employee, and no two current history rows belong to the same device. The writes of the
  routes are modelled as applied: a store that refuses one write of a sequence and accepts
  the next is not part of this model.
\<close>

definition consistent :: "store \<Rightarrow> bool" where
  "consistent s =
     (distinct (map dev_id (devices s))
      \<and> (\<forall>d\<in>set (devices s). dev_id d < next_id s)
      \<and> (\<forall>d\<in>set (devices s). azure_device_id d \<noteq> Some [])
      \<and> (\<forall>h\<in>set (history s). is_current h \<longrightarrow>
            (\<exists>d\<in>set (devices s). dev_id d = h_device_id h \<and> employee_id d = Some (h_employee_id h)))
      \<and> distinct (map h_device_id (filter is_current (history s)))
      \<and> distinct (map h_id (history s))
      \<and> (\<forall>h\<in>set (history s). h_id h < next_id s))"

text \<open>
  The history rows of a device: the current ones, all of them, and a row after the
  update that closes it (\<open>is_current: false, unassignment_date: now\<close>).
\<close>

definition current_entries :: "store \<Rightarrow> nat \<Rightarrow> assignment list" where
  "current_entries s device = filter (\<lambda>h. h_device_id h = device \<and> is_current h) (history s)"

definition entries_of :: "store \<Rightarrow> nat \<Rightarrow> assignment list" where
  "entries_of s device = filter (\<lambda>h. h_device_id h = device) (history s)"

definition closed :: "nat \<Rightarrow> assignment \<Rightarrow> assignment" where
  "closed now h = h\<lparr>is_current := False, unassignment_date := Some now\<rparr>"


section \<open>The stores the syncs can reach\<close>

text \<open>
  The stores reachable from the empty database by the writes of the two routes, one rule
  per point between two writes: the upsert of one directory device (lines 185 to 336 of the
  entra-id route), the two writes of the unregistration loop (lines 391 to 408), the writes
  of one turn of the conflict loop (lines 458 to 551), and in the ninjaone route the delete
  of the merge (lines 366 to 369) and the whole body for one device. The rules take any
  device, any relationship and any instant, so that every order in which the iterations can run
  is covered.
\<close>

inductive reachable :: "store \<Rightarrow> bool" where
  start: "reachable empty_store"
| directory_upsert:
    "reachable s \<Longrightarrow> az_id azureDevice \<noteq> [] \<Longrightarrow> reachable (entraUpsertDevice azureDevice now s)"
| unregister_close:
    "reachable s \<Longrightarrow> device \<in> set (devices s) \<Longrightarrow> employee_id device = Some e \<Longrightarrow>
     reachable (closeAssignment (dev_id device) e now s)"
| unregister:
    "reachable s \<Longrightarrow> device \<in> set (devices s) \<Longrightarrow> reachable (unregisterDevice now device s)"
| resolve_close:
    "reachable s \<Longrightarrow>
     single (filter (\<lambda>d. azure_device_id d = Some azureDeviceId) (devices s)) = Some deviceRecord \<Longrightarrow>
     reachable (closePrevious deviceRecord newEmployeeId now s)"
| resolve_assign:
    "reachable s \<Longrightarrow>
     single (filter (\<lambda>d. azure_device_id d = Some azureDeviceId) (devices s)) = Some deviceRecord \<Longrightarrow>
     reachable (setEmployee (dev_id deviceRecord) (Some newEmployeeId)
                  (closePrevious deviceRecord newEmployeeId now s))"
| resolve_current:
    "reachable s \<Longrightarrow>
     single (filter (\<lambda>d. azure_device_id d = Some azureDeviceId) (devices s)) = Some deviceRecord \<Longrightarrow>
     reachable (recordCurrent deviceRecord azureDeviceId winningRelationship now syncLogId
                  (setEmployee (dev_id deviceRecord) (Some (rel_employee_id winningRelationship))
                     (closePrevious deviceRecord (rel_employee_id winningRelationship) now s)))"
| resolve_other:
    "reachable s \<Longrightarrow> reachable (recordOther deviceRecord azureDeviceId now syncLogId rel s)"
| merge_delete:
    "reachable s \<Longrightarrow> ninjaFindExisting device deviceDetails s = Some (rule, existingDevice) \<Longrightarrow>
     reachable (delete_device (dev_id existingDevice) s)"
| device_sync:
    "reachable s \<Longrightarrow> reachable (ninjaSyncDevice device deviceDetails now s)"


subsection \<open>Scenarios of the directory sync and of the device sync\<close>

text \<open>
  A laptop assigned to employee 10, with its current history row; and a run in which the
  directory lists that laptop for employee 10 (registered at 100) and for employee 20
  (registered at 200).
\<close>

definition laptop :: device where
  "laptop = blank_device\<lparr>dev_id := 1, azure_device_id := Some ''az-1'', employee_id := Some 10,
                          device_name := Some ''atl-HKXRGK2'', serial_number := Some ''HKXRGK2''\<rparr>"

definition laptop_entry :: assignment where
  "laptop_entry =
     \<lparr>h_id = 2, h_device_id = 1, h_employee_id = 10, h_azure_device_id = Some ''az-1'',
      registered_date = 100, assignment_date = 100, unassignment_date = None,
      is_current = True, sync_id = 0\<rparr>"

definition assigned_store :: store where
  "assigned_store = \<lparr>devices = [laptop], history = [laptop_entry], next_id = 3\<rparr>"


text \<open>
  A store with two rows for one machine: row 1 was written by the device sync alone (no
  \<open>azure_device_id\<close>) and carries an employee, row 2 was written by the directory sync and
  has no employee. NinjaOne device 7 reports the serial that ends the name of row 2.
\<close>

definition legacy_store :: store where
  "legacy_store =
     \<lparr>devices =
        [blank_device\<lparr>dev_id := 1, ninja_device_id := Some ''7'', employee_id := Some 10,
                       device_name := Some ''HKXRGK2'', is_in_ninja := True\<rparr>,
         blank_device\<lparr>dev_id := 2, azure_device_id := Some ''az-1'',
                       device_name := Some ''atl-HKXRGK2'', serial_number := Some ''HKXRGK2''\<rparr>],
      history = [], next_id = 3\<rparr>"

definition ninja7 :: ninja_device where
  "ninja7 = \<lparr>nd_id = ''7'', nd_systemName = Some ''HKXRGK2'', nd_dnsName = None,
             nd_nodeClass = Some ''WINDOWS_WORKSTATION'', nd_lastContact = None\<rparr>"

definition details7 :: ninja_details where
  "details7 = \<lparr>sys_serialNumber = Some ''HKXRGK2'', sys_biosSerialNumber = None,
               sys_manufacturer = Some ''Dell'', sys_model = None,
               det_os_name = None, det_os_version = None\<rparr>"

text \<open>
  A machine enrolled twice in NinjaOne under the same name and without a serial: the
  device sync has stored the first enrolment (id 5), and then meets the second (id 7). The
  directory later lists a device of that name.
\<close>

definition no_details :: ninja_details where
  "no_details = \<lparr>sys_serialNumber = None, sys_biosSerialNumber = None,
               sys_manufacturer = None, sys_model = None,
               det_os_name = None, det_os_version = None\<rparr>"

definition first_enrolment :: ninja_device where
  "first_enrolment = \<lparr>nd_id = ''5'', nd_systemName = Some ''PC-1'', nd_dnsName = None,
             nd_nodeClass = None, nd_lastContact = None\<rparr>"

definition second_enrolment :: ninja_device where
  "second_enrolment = \<lparr>nd_id = ''7'', nd_systemName = Some ''PC-1'', nd_dnsName = None,
             nd_nodeClass = None, nd_lastContact = None\<rparr>"

definition bound_store :: store where
  "bound_store = ninjaSyncDevice first_enrolment no_details 400 empty_store"

definition ninja_first :: azure_device where
  "ninja_first =
     \<lparr>az_id = ''az-9'', az_displayName = Some ''PC-1'', az_operatingSystem = None,
      az_operatingSystemVersion = None, az_isManaged = None,
      az_registeredDateTime = None, az_approximateLastSignInDateTime = None\<rparr>"


section \<open>Properties of the string helpers\<close>






section \<open>Serial extraction: the result\<close>



section \<open>The cron-secret check: who is rejected\<close>

text \<open>
  C10, as stated, fails: a request whose Authorization header is present with the empty
  value carries a value that differs from \<open>Bearer <secret>\<close>, yet it is not rejected,
  because the empty string is falsy.
\<close>

theorem POST_auth_empty_header_not_rejected:
  "POST_auth SyncAll (Some []) (Some ''s3cret'') = Proceed
   \<and> POST_auth SyncEntraId (Some []) (Some ''s3cret'') = Proceed
   \<and> POST_auth SyncNinjaOne (Some []) (Some ''s3cret'') = Proceed
   \<and> [] \<noteq> bearer (Some ''s3cret'')"
  by (simp add: cronSecretCheck_def bearer_def)

text \<open>
  C10 (amended). For each of the three sync endpoints, a POST request is rejected with
  401 exactly when it carries an Authorization header whose value is not empty and
  differs from \<open>Bearer\<close>, a space and SYNC_CRON_SECRET; a request with no Authorization
  header, or with an empty one, is never rejected and proceeds to start the sync.
\<close>

theorem POST_auth_rejects_iff:
  "(POST_auth ep authHeader cronSecret = Unauthorized401)
     = (\<exists>v. authHeader = Some v \<and> v \<noteq> [] \<and> v \<noteq> bearer cronSecret)
   \<and> POST_auth ep None cronSecret = Proceed
   \<and> POST_auth ep (Some []) cronSecret = Proceed"
  by (cases ep; cases authHeader) (auto simp: cronSecretCheck_def)


section \<open>The final status of the unified sync\<close>




section \<open>Closing the Sync Run: how many terminal updates\<close>

lemma tu_send_update:
  "terminal_updates (send_update r p st) = terminal_updates st + (if terminal p then 1 else 0)"
  by (cases r) (simp_all add: terminal_updates_def)

lemma terminal_patches:
  "terminal (updateData results now duration)"
  "terminal (partialClose now)"
  "terminal (forceData results now duration)"
  "terminal (closeOnly now)"
  "terminal (failedPatch results message now duration)"
  "terminal (completionPatch body now duration)"
  "terminal (failurePatch body message now duration)"
  by (simp_all add: terminal_def updateData_def partialClose_def forceData_def closeOnly_def
      failedPatch_def completionPatch_def failurePatch_def)

lemma tu_lastResortFresh:
  "terminal_updates (snd (lastResortFresh env results now duration st)) = terminal_updates st + 1"
  by (simp add: lastResortFresh_def Let_def tu_send_update terminal_patches
      del: send_update.simps split: upd_resp.splits reply.splits)

lemma tu_verifyVisible:
  "terminal_updates st \<le> terminal_updates (snd (verifyVisible env results now duration st))
   \<and> terminal_updates (snd (verifyVisible env results now duration st)) \<le> terminal_updates st + 1"
  by (simp add: verifyVisible_def tu_lastResortFresh split: reply.splits)

lemma tu_verifyRetry:
  "terminal_updates st \<le> terminal_updates (snd (verifyRetry env results now duration st))
   \<and> terminal_updates (snd (verifyRetry env results now duration st)) \<le> terminal_updates st + 1"
  by (simp add: verifyRetry_def Let_def tu_send_update terminal_patches
      del: send_update.simps split: reply.splits upd_resp.splits)

lemma tu_tryFinalUpdate:
  "terminal_updates st \<le> terminal_updates (snd (tryFinalUpdate env results now duration st))
   \<and> terminal_updates (snd (tryFinalUpdate env results now duration st)) \<le> terminal_updates st + 2
   \<and> (fst (tryFinalUpdate env results now duration st) = None
        \<longrightarrow> terminal_updates st + 1
            \<le> terminal_updates (snd (tryFinalUpdate env results now duration st)))"
proof -
  let ?st1 = "send_update Stored (updateData results now duration) st"
  have s1: "terminal_updates ?st1 = terminal_updates st + 1"
    by (simp add: tu_send_update terminal_patches del: send_update.simps)
  note vv = tu_verifyVisible [of ?st1 env results now duration, unfolded s1]
  note vr = tu_verifyRetry [of ?st1 env results now duration, unfolded s1]
  show ?thesis
    using vv vr
    by (simp add: tryFinalUpdate_def Let_def tu_send_update terminal_patches
        del: send_update.simps split: reply.splits upd_resp.splits)
qed

lemma tu_finalizeRun:
  "terminal_updates st + 1 \<le> terminal_updates (finalizeRun env results now duration st)
   \<and> terminal_updates (finalizeRun env results now duration st) \<le> terminal_updates st + 3"
proof (cases "tryFinalUpdate env results now duration st")
  case (Pair thrown st')
  with tu_tryFinalUpdate [of st env results now duration] show ?thesis
    by (cases thrown) (simp_all add: finalizeRun_def tu_send_update terminal_patches
        del: send_update.simps)
qed

lemma tu_failRun:
  "terminal_updates st + 1 \<le> terminal_updates (failRun env results message now duration st)
   \<and> terminal_updates (failRun env results message now duration st) \<le> terminal_updates st + 2"
  by (simp add: failRun_def Let_def tu_send_update terminal_patches
      del: send_update.simps split: upd_resp.splits)

lemma tu_unifiedTask:
  "terminal_updates st + 1 \<le> terminal_updates (unifiedTask env azureStage ninjaStage now duration st)
   \<and> terminal_updates (unifiedTask env azureStage ninjaStage now duration st) \<le> terminal_updates st + 3"
proof -
  have f: "terminal_updates (failRun env r m now duration st) \<le> terminal_updates st + 3" for r m
    using tu_failRun [of st env r m now duration] by simp
  show ?thesis
    unfolding unifiedTask_def Let_def
    using tu_finalizeRun tu_failRun f
    by (simp split: option.splits)
qed

lemma closed_status_finalStatus: "closed_status (finalStatus r)"
  by (simp add: closed_status_def finalStatus_def)

lemma unifiedTask_cooperating:
  assumes "store_cooperates env"
  shows "terminal_updates (unifiedTask env a n now d \<lparr>row = newSyncLog SyncAll i t, issued = []\<rparr>) = 1
    \<and> completed_at (row (unifiedTask env a n now d \<lparr>row = newSyncLog SyncAll i t, issued = []\<rparr>)) = Some now
    \<and> closed_status (status (row (unifiedTask env a n now d \<lparr>row = newSyncLog SyncAll i t, issued = []\<rparr>)))"
proof -
  from assms obtain b where b: "beforeUpdate env = Data b"
    by (auto simp: store_cooperates_def split: reply.splits)
  from assms have u: "updatedData env = Stored" "failureUpdate env = Stored"
    and v: "completed (verifyData env)" "completed (finalVerify env)"
           "completed (statusCheckVerify env)"
    by (simp_all add: store_cooperates_def)
  from v obtain l1 l2 l3 where l: "verifyData env = Data l1" "finalVerify env = Data l2"
      "statusCheckVerify env = Data l3"
    by (cases "verifyData env"; cases "finalVerify env"; cases "statusCheckVerify env") auto
  with v have c: "completed_at l1 \<noteq> None" "completed_at l2 \<noteq> None" "completed_at l3 \<noteq> None"
    by auto
  show ?thesis
    using b u l c closed_status_finalStatus
    by (auto simp: unifiedTask_def finalizeRun_def failRun_def tryFinalUpdate_def
        verifyVisible_def updateData_def failedPatch_def apply_patch_def Let_def
        terminal_updates_def terminal_def closed_status_def newSyncLog_def
        split: option.splits)
qed

lemma tu_sourceTask:
  "terminal_updates st + 1 \<le> terminal_updates (snd (sourceTask ep env body now d st))
   \<and> terminal_updates (snd (sourceTask ep env body now d st)) \<le> terminal_updates st + 2"
  by (simp add: sourceTask_def sourceFailed_def Let_def tu_send_update terminal_patches
      del: send_update.simps split: option.splits upd_resp.splits)

lemma sourceTask_cooperating:
  assumes "source_cooperates env"
  shows "terminal_updates (snd (sourceTask ep env body now d \<lparr>row = newSyncLog ep i t, issued = []\<rparr>)) = 1
    \<and> completed_at (row (snd (sourceTask ep env body now d \<lparr>row = newSyncLog ep i t, issued = []\<rparr>))) = Some now
    \<and> closed_status (status (row (snd (sourceTask ep env body now d \<lparr>row = newSyncLog ep i t, issued = []\<rparr>))))"
  using assms
  by (auto simp: source_cooperates_def sourceTask_def sourceFailed_def Let_def
      completionPatch_def failurePatch_def apply_patch_def terminal_updates_def terminal_def
      closed_status_def split: option.splits)

lemmas scenario_defs =
  cooperative_env_def refusing_env_def lagging_env_def crashing_env_def stage_ok_def
  stage_thrown_def noResult_def newSyncLog_def

lemmas orchestrator_defs =
  POST_all_def unifiedTask_def finalizeRun_def failRun_def tryFinalUpdate_def
  verifyVisible_def verifyRetry_def lastResortFresh_def updateData_def forceData_def
  partialClose_def closeOnly_def failedPatch_def apply_patch_def finalStatus_def
  hasErrors_def totalSynced_def totalFailed_def cronSecretCheck_def


section \<open>The unified run that is never closed\<close>

text \<open>
  C1. The claim is that on every exit path of the unified sync the row of the Sync Run
  receives a \<open>completed_at\<close>. The code leaves two paths without one. First run below:
  both stages succeed and the store answers the final update (line 432) with an error
  object; the branch \<open>if (updateError)\<close> writes to the console and the task ends; the one
  update issued was not written, and the row still has no \<open>completed_at\<close>. Second run: the
  first stage throws and the update of the error path (line 620) throws; the inner
  \<open>catch\<close> writes to the console and the row still has no \<open>completed_at\<close>.
\<close>

theorem unified_run_left_open:
  "POST_all None (Some ''s3cret'') (Data 1) 100 refusing_env (stage_ok 3) (stage_ok 5) 200 100
     = (JsonStarted 1,
        Some \<lparr>row = newSyncLog SyncAll 1 100,
              issued = [updateData \<lparr>azure = fst (stage_ok 3), ninjaone = fst (stage_ok 5)\<rparr> 200 100]\<rparr>)
   \<and> completed_at (newSyncLog SyncAll 1 100) = None
   \<and> map_option (\<lambda>st. completed_at (row st))
        (snd (POST_all None (Some ''s3cret'') (Data 1) 100 crashing_env
               (stage_thrown ''Azure sync timeout'') (stage_ok 5) 200 100)) = Some None"
  by (simp add: orchestrator_defs scenario_defs Let_def)


section \<open>The life of a Sync Run\<close>

text \<open>
  C7, as stated, fails: the row of a Sync Run is created with the status \<open>success\<close>, not
  \<open>running\<close>, in all three routes; and when the selects that verify the final update lag
  behind it, the unified run issues two terminal updates, not one.
\<close>

theorem sync_run_created_as_success:
  "status (newSyncLog SyncAll 1 100) = ''success''
   \<and> status (newSyncLog SyncEntraId 1 100) = ''success''
   \<and> status (newSyncLog SyncNinjaOne 1 100) = ''success''
   \<and> ''success'' \<noteq> ''running''
   \<and> terminal_updates
        (unifiedTask lagging_env (stage_ok 3) (stage_ok 5) 200 100
           \<lparr>row = newSyncLog SyncAll 1 100, issued = []\<rparr>) = 2"
  by (simp add: orchestrator_defs scenario_defs Let_def terminal_updates_def terminal_def)

text \<open>
  C7 (amended). Every Sync Run record is created with the status \<open>success\<close> and no
  \<open>completed_at\<close>; the missing \<open>completed_at\<close> is what marks it as running. When the store
  cooperates, exactly one terminal update is issued and it closes the record: afterwards
  \<open>completed_at\<close> is set and the status is \<open>success\<close>, \<open>partial\<close> or \<open>failed\<close>. This holds
  for the unified run and for each per-source run. Whatever the store answers, the unified
  run issues between one and three terminal updates and a per-source run one or two.
\<close>

theorem sync_run_lifecycle:
  "status (newSyncLog ep i t) = ''success'' \<and> completed_at (newSyncLog ep i t) = None
   \<and> (store_cooperates env \<longrightarrow>
        terminal_updates
          (unifiedTask env a n now d \<lparr>row = newSyncLog SyncAll i t, issued = []\<rparr>) = 1
        \<and> completed_at (row
            (unifiedTask env a n now d \<lparr>row = newSyncLog SyncAll i t, issued = []\<rparr>)) = Some now
        \<and> closed_status (status (row
            (unifiedTask env a n now d \<lparr>row = newSyncLog SyncAll i t, issued = []\<rparr>))))
   \<and> 1 \<le> terminal_updates
            (unifiedTask env a n now d \<lparr>row = newSyncLog SyncAll i t, issued = []\<rparr>)
   \<and> terminal_updates
        (unifiedTask env a n now d \<lparr>row = newSyncLog SyncAll i t, issued = []\<rparr>) \<le> 3
   \<and> (source_cooperates senv \<longrightarrow>
        terminal_updates
          (snd (sourceTask ep senv body now d \<lparr>row = newSyncLog ep i t, issued = []\<rparr>)) = 1
        \<and> completed_at (row
            (snd (sourceTask ep senv body now d \<lparr>row = newSyncLog ep i t, issued = []\<rparr>)))
            = Some now
        \<and> closed_status (status (row
            (snd (sourceTask ep senv body now d \<lparr>row = newSyncLog ep i t, issued = []\<rparr>)))))
   \<and> 1 \<le> terminal_updates
            (snd (sourceTask ep senv body now d \<lparr>row = newSyncLog ep i t, issued = []\<rparr>))
   \<and> terminal_updates
        (snd (sourceTask ep senv body now d \<lparr>row = newSyncLog ep i t, issued = []\<rparr>)) \<le> 2"
proof -
  let ?st = "\<lparr>row = newSyncLog SyncAll i t, issued = []\<rparr>"
  let ?sst = "\<lparr>row = newSyncLog ep i t, issued = []\<rparr>"
  have z: "terminal_updates ?st = 0" "terminal_updates ?sst = 0"
    by (simp_all add: terminal_updates_def)
  have created: "status (newSyncLog ep i t) = ''success'' \<and> completed_at (newSyncLog ep i t) = None"
    by (simp add: newSyncLog_def)
  note u = tu_unifiedTask [of ?st env a n now d, unfolded z]
  note s = tu_sourceTask [of ?sst ep senv body now d, unfolded z]
  from created u s unifiedTask_cooperating [of env a n now d i t]
    sourceTask_cooperating [of senv ep body now d i t]
  show ?thesis by simp
qed

theorem sync_run_lifecycle_witness:
  "store_cooperates cooperative_env
   \<and> terminal_updates
       (unifiedTask cooperative_env (stage_ok 3) (stage_ok 5) 200 100
          \<lparr>row = newSyncLog SyncAll 1 100, issued = []\<rparr>) = 1
   \<and> completed_at (row
       (unifiedTask cooperative_env (stage_ok 3) (stage_ok 5) 200 100
          \<lparr>row = newSyncLog SyncAll 1 100, issued = []\<rparr>)) = Some 200
   \<and> source_cooperates \<lparr>successUpdate = Stored, failedUpdate = Stored\<rparr>
   \<and> terminal_updates
       (snd (sourceTask SyncEntraId \<lparr>successUpdate = Stored, failedUpdate = Stored\<rparr>
               \<lparr>bodySynced = 3, bodyFailed = 0, bodyErrors = [], bodyThrown = None\<rparr> 200 100
               \<lparr>row = newSyncLog SyncEntraId 1 100, issued = []\<rparr>)) = 1"
  using sync_run_lifecycle [of SyncEntraId 1 100 cooperative_env "stage_ok 3" "stage_ok 5" 200 100
      "\<lparr>successUpdate = Stored, failedUpdate = Stored\<rparr>"
      "\<lparr>bodySynced = 3, bodyFailed = 0, bodyErrors = [], bodyThrown = None\<rparr>"]
  by (simp add: store_cooperates_def source_cooperates_def cooperative_env_def)


section \<open>Rows and lookups\<close>

lemma single_Some: "single rows = Some r \<Longrightarrow> rows = [r]"
  by (cases rows rule: list.exhaust; cases "tl rows") (auto simp: single_def split: list.splits)

lemma single_filter_mem: "single (filter P rows) = Some r \<Longrightarrow> r \<in> set rows \<and> P r"
proof -
  assume "single (filter P rows) = Some r"
  then have "filter P rows = [r]" by (rule single_Some)
  then have "r \<in> set (filter P rows)" by simp
  then show ?thesis by simp
qed

lemma first_row_filter_mem: "first_row (filter P rows) = Some r \<Longrightarrow> r \<in> set rows \<and> P r"
proof -
  assume "first_row (filter P rows) = Some r"
  then obtain rs where "filter P rows = r # rs"
    by (auto simp: first_row_def split: list.splits)
  then have "r \<in> set (filter P rows)" by (metis list.set_intros(1))
  then show ?thesis by simp
qed

lemma find_mem: "find P rows = Some r \<Longrightarrow> r \<in> set rows \<and> P r"
  by (induction rows) (auto split: if_splits)

lemma write_ninja_data_fields [simp]:
  "dev_id (write_ninja_data dd d) = dev_id d"
  "employee_id (write_ninja_data dd d)
     = (case dd_employee_id dd of Some e \<Rightarrow> Some e | None \<Rightarrow> employee_id d)"
  "azure_device_id (write_ninja_data dd d)
     = (case dd_azure_device_id dd of Some a \<Rightarrow> Some a | None \<Rightarrow> azure_device_id d)"
  "ninja_device_id (write_ninja_data dd d) = Some (dd_ninja_device_id dd)"
  by (simp_all add: write_ninja_data_def)

lemma write_entra_data_fields [simp]:
  "dev_id (write_entra_data ed d) = dev_id d"
  "employee_id (write_entra_data ed d)
     = (case ed_employee_id ed of Some e \<Rightarrow> Some e | None \<Rightarrow> employee_id d)"
  "azure_device_id (write_entra_data ed d) = Some (ed_azure_device_id ed)"
  "ninja_device_id (write_entra_data ed d) = ninja_device_id d"
  by (simp_all add: write_entra_data_def)

lemma blank_device_fields [simp]:
  "employee_id blank_device = None" "azure_device_id blank_device = None"
  "ninja_device_id blank_device = None"
  by (simp_all add: blank_device_def)

lemma distinct_dev_id_eq:
  "distinct (map dev_id ds) \<Longrightarrow> d \<in> set ds \<Longrightarrow> d' \<in> set ds \<Longrightarrow> dev_id d = dev_id d' \<Longrightarrow> d = d'"
  by (meson distinct_map inj_onD)

section \<open>Writes keep the store consistent\<close>




lemma consistent_insert_history_other:
  assumes "consistent s" and "\<not> is_current h"
  shows "consistent (insert_history h s)"
proof -
  from assms have "\<forall>h'\<in>set (history s). h_id h' \<noteq> next_id s" by (auto simp: consistent_def)
  with assms show ?thesis
    by (auto simp: consistent_def insert_history_def less_Suc_eq)
qed

lemma consistent_insert_history_current:
  assumes "consistent s"
    and "\<exists>d\<in>set (devices s). dev_id d = h_device_id h \<and> employee_id d = Some (h_employee_id h)"
    and "current_entries s (h_device_id h) = []"
  shows "consistent (insert_history h s)"
proof -
  from assms(3) have "h_device_id h \<notin> h_device_id ` set (filter is_current (history s))"
    by (auto simp: current_entries_def filter_empty_conv)
  moreover from assms have "\<forall>h'\<in>set (history s). h_id h' \<noteq> next_id s"
    by (auto simp: consistent_def)
  ultimately show ?thesis using assms(1,2)
    by (auto simp: consistent_def insert_history_def less_Suc_eq)
qed

lemma consistent_update_history:
  assumes "consistent s"
    and "\<And>h. h \<in> set (history s) \<Longrightarrow> match h \<Longrightarrow>
           h_device_id (change h) = h_device_id h \<and> h_employee_id (change h) = h_employee_id h
           \<and> (is_current (change h) \<longrightarrow> is_current h) \<and> h_id (change h) = h_id h"
  shows "consistent (update_history match change s)"
proof -
  let ?f = "\<lambda>h. if match h then change h else h"
  have sub: "map h_device_id (filter is_current (map ?f hs))
           = map h_device_id (filter (\<lambda>h. is_current (?f h)) hs)"
    if "set hs \<subseteq> set (history s)" for hs
    using that assms(2) by (induction hs) auto
  have "filter (\<lambda>h. is_current (?f h)) (history s)
      = filter (\<lambda>h. is_current (?f h)) (filter is_current (history s))"
    using assms(2) by (auto intro!: filter_cong split: if_splits)
  moreover from assms(1) have "distinct (map h_device_id (filter is_current (history s)))"
    by (simp add: consistent_def)
  ultimately have "distinct (map h_device_id (filter (\<lambda>h. is_current (?f h)) (history s)))"
    by (simp only: distinct_map_filter)
  with sub [of "history s"]
  have d: "distinct (map h_device_id (filter is_current (map ?f (history s))))"
    by simp
  have "\<exists>d\<in>set (devices s). dev_id d = h_device_id h' \<and> employee_id d = Some (h_employee_id h')"
    if "h' \<in> set (map ?f (history s))" "is_current h'" for h'
  proof -
    from that obtain h where h: "h \<in> set (history s)" "h' = ?f h" by auto
    with that assms(2) [of h] have "is_current h" "h_device_id h' = h_device_id h"
      "h_employee_id h' = h_employee_id h"
      by (auto split: if_splits)
    with h assms(1) show ?thesis by (auto simp: consistent_def)
  qed
  moreover have "map h_id (map ?f (history s)) = map h_id (history s)"
    using assms(2) by (auto simp: map_eq_conv)
  moreover from this assms(1) have "\<forall>h\<in>set (map ?f (history s)). h_id h < next_id s"
    by (metis (no_types, lifting) consistent_def imageE image_eqI list.set_map)
  ultimately show ?thesis using d assms(1)
    by (simp add: consistent_def update_history_def del: set_map map_map)
qed

section \<open>Current entries\<close>

lemma current_entries_employee:
  assumes "consistent s" "d \<in> set (devices s)" "h \<in> set (current_entries s (dev_id d))"
  shows "employee_id d = Some (h_employee_id h)"
proof -
  from assms(3) have h: "h \<in> set (history s)" "is_current h" "h_device_id h = dev_id d"
    by (simp_all add: current_entries_def)
  with assms(1) obtain d' where d': "d' \<in> set (devices s)" "dev_id d' = dev_id d"
    "employee_id d' = Some (h_employee_id h)"
    by (auto simp: consistent_def)
  from assms(1) have "distinct (map dev_id (devices s))" by (simp add: consistent_def)
  from distinct_dev_id_eq [OF this d'(1) assms(2) d'(2)] d'(3) show ?thesis by simp
qed

lemma current_entries_at_most_one:
  assumes "consistent s"
  shows "length (current_entries s x) \<le> 1"
proof -
  from assms have "distinct (map h_device_id (filter is_current (history s)))"
    by (simp add: consistent_def)
  then have "distinct (map h_device_id (filter (\<lambda>h. h_device_id h = x) (filter is_current (history s))))"
    by (simp only: distinct_map_filter)
  moreover have "filter (\<lambda>h. h_device_id h = x) (filter is_current (history s)) = current_entries s x"
    by (simp add: current_entries_def conj_commute)
  ultimately have dist: "distinct (map h_device_id (current_entries s x))" by simp
  have all: "\<forall>h\<in>set (current_entries s x). h_device_id h = x"
    by (simp add: current_entries_def)
  show ?thesis
  proof (cases "current_entries s x")
    case Nil
    then show ?thesis by simp
  next
    case (Cons a as)
    show ?thesis
    proof (cases as)
      case Nil
      with Cons show ?thesis by simp
    next
      case (Cons b bs)
      with \<open>current_entries s x = a # as\<close> dist all show ?thesis by auto
    qed
  qed
qed

lemma current_entries_closeAssignment:
  "current_entries (closeAssignment x e now s) y
     = filter (\<lambda>h. \<not> (h_device_id h = x \<and> h_employee_id h = e)) (current_entries s y)"
proof -
  have "filter (\<lambda>h. h_device_id h = y \<and> is_current h)
          (map (\<lambda>h. if h_device_id h = x \<and> h_employee_id h = e \<and> is_current h
                     then h\<lparr>is_current := False, unassignment_date := Some now\<rparr> else h) hs)
      = filter (\<lambda>h. \<not> (h_device_id h = x \<and> h_employee_id h = e))
          (filter (\<lambda>h. h_device_id h = y \<and> is_current h) hs)" for hs
    by (induction hs) auto
  then show ?thesis
    by (simp add: current_entries_def closeAssignment_def update_history_def)
qed

lemma devices_closeAssignment [simp]: "devices (closeAssignment x e now s) = devices s"
  by (simp add: closeAssignment_def update_history_def)

lemma consistent_closeAssignment:
  "consistent s \<Longrightarrow> consistent (closeAssignment x e now s)"
  unfolding closeAssignment_def
  by (rule consistent_update_history) auto

lemma consistent_setEmployee:
  assumes "consistent s"
    and "\<forall>h\<in>set (current_entries s x). emp = Some (h_employee_id h)"
  shows "consistent (setEmployee x emp s)"
proof -
  let ?f = "\<lambda>d. if dev_id d = x then d\<lparr>employee_id := emp\<rparr> else d"
  have ids: "map dev_id (map ?f (devices s)) = map dev_id (devices s)"
    by (auto simp: map_eq_conv)
  have link: "\<exists>d\<in>set (map ?f (devices s)). dev_id d = h_device_id h
      \<and> employee_id d = Some (h_employee_id h)"
    if h: "h \<in> set (history s)" "is_current h" for h
  proof -
    from h assms(1) obtain d where d: "d \<in> set (devices s)" "dev_id d = h_device_id h"
      "employee_id d = Some (h_employee_id h)"
      by (auto simp: consistent_def)
    have "employee_id (?f d) = Some (h_employee_id h)"
    proof (cases "dev_id d = x")
      case True
      with h d have "h \<in> set (current_entries s x)" by (simp add: current_entries_def)
      with assms(2) True show ?thesis by simp
    next
      case False
      with d show ?thesis by simp
    qed
    moreover have "dev_id (?f d) = h_device_id h" using d by simp
    moreover from d have "?f d \<in> set (map ?f (devices s))" by simp
    ultimately show ?thesis by blast
  qed
  from assms(1) have "distinct (map dev_id (devices s))"
    and "distinct (map h_device_id (filter is_current (history s)))"
    and "\<forall>d\<in>set (map ?f (devices s)). dev_id d < next_id s"
    and "\<forall>d\<in>set (map ?f (devices s)). azure_device_id d \<noteq> Some []"
    and "distinct (map h_id (history s))"
    and "\<forall>h\<in>set (history s). h_id h < next_id s"
    by (auto simp: consistent_def)
  with ids link show ?thesis
    unfolding consistent_def setEmployee_def update_devices_def
    by (simp del: map_map set_map)
qed

section \<open>The directory sync keeps the store consistent\<close>



lemma consistent_unregisterDevice:
  assumes "consistent s" "device \<in> set (devices s)"
  shows "consistent (unregisterDevice now device s)"
proof (cases "employee_id device")
  case None
  have "current_entries s (dev_id device) = []"
  proof (rule ccontr)
    assume "current_entries s (dev_id device) \<noteq> []"
    then obtain h where "h \<in> set (current_entries s (dev_id device))"
      by (cases "current_entries s (dev_id device)") auto
    from current_entries_employee [OF assms this] None show False by simp
  qed
  with assms(1) None show ?thesis
    by (simp add: unregisterDevice_def consistent_setEmployee)
next
  case (Some e)
  let ?s1 = "closeAssignment (dev_id device) e now s"
  have c1: "consistent ?s1" using assms(1) by (rule consistent_closeAssignment)
  have "current_entries ?s1 (dev_id device) = []"
  proof -
    have "\<forall>h\<in>set (current_entries s (dev_id device)).
        h_device_id h = dev_id device \<and> h_employee_id h = e"
      using current_entries_employee [OF assms] Some
      by (auto simp: current_entries_def)
    then show ?thesis
      by (simp add: current_entries_closeAssignment filter_empty_conv)
  qed
  with c1 Some show ?thesis
    by (simp add: unregisterDevice_def consistent_setEmployee)
qed

lemma consistent_closePrevious:
  "consistent s \<Longrightarrow> consistent (closePrevious deviceRecord w now s)"
  by (simp add: closePrevious_def consistent_closeAssignment split: option.splits)

lemma devices_closePrevious [simp]: "devices (closePrevious deviceRecord w now s) = devices s"
  by (simp add: closePrevious_def split: option.splits)

lemma current_entries_closePrevious:
  assumes "consistent s" "deviceRecord \<in> set (devices s)"
    and "h \<in> set (current_entries (closePrevious deviceRecord w now s) (dev_id deviceRecord))"
  shows "h_employee_id h = w"
proof (cases "employee_id deviceRecord")
  case None
  with assms(3) have "h \<in> set (current_entries s (dev_id deviceRecord))"
    by (simp add: closePrevious_def)
  from current_entries_employee [OF assms(1,2) this] None show ?thesis by simp
next
  case (Some p)
  show ?thesis
  proof (cases "p = w")
    case True
    with Some assms(3) have "h \<in> set (current_entries s (dev_id deviceRecord))"
      by (simp add: closePrevious_def)
    from current_entries_employee [OF assms(1,2) this] Some True show ?thesis by simp
  next
    case False
    with Some assms(3)
    have h: "h \<in> set (current_entries s (dev_id deviceRecord))"
      "\<not> (h_device_id h = dev_id deviceRecord \<and> h_employee_id h = p)"
      by (simp_all add: closePrevious_def current_entries_closeAssignment)
    from current_entries_employee [OF assms(1,2) h(1)] Some have "h_employee_id h = p" by simp
    moreover from h(1) have "h_device_id h = dev_id deviceRecord"
      by (simp add: current_entries_def)
    ultimately show ?thesis using h(2) by simp
  qed
qed

lemma consistent_assignWinner:
  assumes "consistent s" "deviceRecord \<in> set (devices s)"
  shows "consistent (setEmployee (dev_id deviceRecord) (Some w) (closePrevious deviceRecord w now s))"
proof (rule consistent_setEmployee)
  show "consistent (closePrevious deviceRecord w now s)"
    using assms(1) by (rule consistent_closePrevious)
  show "\<forall>h\<in>set (current_entries (closePrevious deviceRecord w now s) (dev_id deviceRecord)).
      Some w = Some (h_employee_id h)"
    using current_entries_closePrevious [OF assms] by auto
qed

lemma history_setEmployee [simp]: "history (setEmployee x emp s) = history s"
  by (simp add: setEmployee_def update_devices_def)

lemma current_entries_setEmployee [simp]:
  "current_entries (setEmployee x emp s) y = current_entries s y"
  by (simp add: current_entries_def)

lemma devices_setEmployee:
  "devices (setEmployee x emp s)
     = map (\<lambda>d. if dev_id d = x then d\<lparr>employee_id := emp\<rparr> else d) (devices s)"
  by (simp add: setEmployee_def update_devices_def)

lemma consistent_recordCurrent:
  assumes "consistent s" "d \<in> set (devices s)" "dev_id d = dev_id deviceRecord"
    "employee_id d = Some (rel_employee_id winningRelationship)"
  shows "consistent (recordCurrent deviceRecord azureDeviceId winningRelationship now syncLogId s)"
proof (cases "single (filter (\<lambda>h. h_device_id h = dev_id deviceRecord
      \<and> h_employee_id h = rel_employee_id winningRelationship \<and> is_current h) (history s))")
  case (Some existingHistory)
  have "consistent (update_history (\<lambda>h. h_id h = h_id existingHistory)
      (\<lambda>h. h\<lparr>registered_date := rel_registered_date winningRelationship\<rparr>) s)"
    by (rule consistent_update_history [OF assms(1)]) simp
  with Some show ?thesis by (simp add: recordCurrent_def)
next
  case None
  let ?x = "dev_id deviceRecord"
  have same: "filter (\<lambda>h. h_device_id h = ?x
        \<and> h_employee_id h = rel_employee_id winningRelationship \<and> is_current h) (history s)
      = current_entries s ?x"
  proof -
    have "\<forall>h\<in>set (history s). h_device_id h = ?x \<and> is_current h
        \<longrightarrow> h_employee_id h = rel_employee_id winningRelationship"
    proof (intro ballI impI)
      fix h assume "h \<in> set (history s)" "h_device_id h = ?x \<and> is_current h"
      then have "h \<in> set (current_entries s (dev_id d))"
        using assms(3) by (simp add: current_entries_def)
      from current_entries_employee [OF assms(1,2) this] assms(4)
      show "h_employee_id h = rel_employee_id winningRelationship" by simp
    qed
    then show ?thesis
      unfolding current_entries_def by (intro filter_cong) auto
  qed
  have "current_entries s ?x = []"
  proof (cases "current_entries s ?x")
    case Nil
    then show ?thesis .
  next
    case (Cons a as)
    with current_entries_at_most_one [OF assms(1), of ?x] have "as = []" by simp
    with Cons None same show ?thesis by (simp add: single_def)
  qed
  moreover have "\<exists>d'\<in>set (devices s). dev_id d' = ?x
      \<and> employee_id d' = Some (rel_employee_id winningRelationship)"
    using assms(2-4) by auto
  ultimately have "consistent (insert_history
      \<lparr>h_id = 0, h_device_id = ?x, h_employee_id = rel_employee_id winningRelationship,
       h_azure_device_id = Some azureDeviceId,
       registered_date = rel_registered_date winningRelationship,
       assignment_date = now, unassignment_date = None, is_current = True,
       sync_id = syncLogId\<rparr> s)"
    using assms(1) by (intro consistent_insert_history_current) simp_all
  with None show ?thesis by (simp add: recordCurrent_def)
qed

lemma consistent_recordOther:
  "consistent s \<Longrightarrow> consistent (recordOther deviceRecord azureDeviceId now syncLogId rel s)"
  by (simp add: recordOther_def consistent_insert_history_other split: option.splits)

lemma consistent_recordOthers:
  "consistent s \<Longrightarrow> consistent (fold (recordOther deviceRecord azureDeviceId now syncLogId) others s)"
  by (induction others arbitrary: s) (simp_all add: consistent_recordOther)

lemma assigned_after_setEmployee:
  assumes "deviceRecord \<in> set (devices s)"
  shows "\<exists>d\<in>set (devices (setEmployee (dev_id deviceRecord) (Some w) s)).
     dev_id d = dev_id deviceRecord \<and> employee_id d = Some w"
proof -
  let ?f = "\<lambda>d. if dev_id d = dev_id deviceRecord then d\<lparr>employee_id := Some w\<rparr> else d"
  from assms have "?f deviceRecord \<in> set (map ?f (devices s))" by simp
  moreover have "dev_id (?f deviceRecord) = dev_id deviceRecord"
    "employee_id (?f deviceRecord) = Some w" by simp_all
  ultimately show ?thesis unfolding devices_setEmployee by blast
qed

lemma consistent_resolve_current:
  assumes "consistent s" "deviceRecord \<in> set (devices s)"
  shows "consistent (recordCurrent deviceRecord azureDeviceId winningRelationship now syncLogId
           (setEmployee (dev_id deviceRecord) (Some (rel_employee_id winningRelationship))
              (closePrevious deviceRecord (rel_employee_id winningRelationship) now s)))"
proof -
  let ?w = "rel_employee_id winningRelationship"
  let ?s1 = "closePrevious deviceRecord ?w now s"
  let ?s2 = "setEmployee (dev_id deviceRecord) (Some ?w) ?s1"
  have c2: "consistent ?s2" using assms by (rule consistent_assignWinner)
  from assms(2) have "deviceRecord \<in> set (devices ?s1)" by simp
  from assigned_after_setEmployee [OF this, of ?w]
  obtain d where "d \<in> set (devices ?s2)" "dev_id d = dev_id deviceRecord"
    "employee_id d = Some ?w" by blast
  with c2 show ?thesis by (intro consistent_recordCurrent)
qed

lemma consistent_resolveDevice:
  assumes "consistent s"
  shows "consistent (resolveDevice now syncLogId entry s)"
proof (cases "single (filter (\<lambda>d. azure_device_id d = Some (fst entry)) (devices s))")
  case None
  with assms show ?thesis by (simp add: resolveDevice_def)
next
  case (Some deviceRecord)
  then have mem: "deviceRecord \<in> set (devices s)" by (auto dest: single_filter_mem)
  show ?thesis
  proof (cases "sortedRelationships (snd entry)")
    case Nil
    with Some assms show ?thesis by (simp add: resolveDevice_def)
  next
    case (Cons winningRelationship others)
    with Some consistent_recordOthers [OF consistent_resolve_current [OF assms mem]]
    show ?thesis by (simp add: resolveDevice_def Let_def)
  qed
qed

section \<open>The device sync keeps the store consistent\<close>

lemma byName_mem: "byName deviceName s = Some d \<Longrightarrow> d \<in> set (devices s)"
  by (auto simp: byName_def split: option.splits dest: single_filter_mem find_mem)

lemma ninjaFindExisting_mem:
  "ninjaFindExisting device deviceDetails s = Some (rule, d) \<Longrightarrow> d \<in> set (devices s)"
  by (auto simp: ninjaFindExisting_def Let_def byNinjaId_def unmatchedAzureBySerial_def
      split: if_splits dest: single_filter_mem first_row_filter_mem byName_mem)

lemma set_fetchAzureBatches:
  "set (fetchAzureBatches rows offset allAzureDevices) \<subseteq> set rows \<union> set allAzureDevices"
proof (induction rows offset allAzureDevices rule: fetchAzureBatches.induct)
  case (1 rows offset allAzureDevices)
  have sub: "set (take 1000 (drop offset rows)) \<subseteq> set rows"
    by (meson set_take_subset set_drop_subset subset_trans)
  show ?case
  proof (cases "offset < 10000 \<and> length (take 1000 (drop offset rows)) > 0
      \<and> length (take 1000 (drop offset rows)) = 1000")
    case True
    with "1.IH" [OF _ refl] have "set (fetchAzureBatches rows (offset + 1000)
        (allAzureDevices @ take 1000 (drop offset rows)))
      \<subseteq> set rows \<union> set (allAzureDevices @ take 1000 (drop offset rows))"
      by simp
    with sub True show ?thesis
      by (subst fetchAzureBatches.simps) (auto simp: Let_def)
  next
    case False
    with sub show ?thesis
      by (subst fetchAzureBatches.simps) (auto simp: Let_def)
  qed
qed

lemma set_orderByDeviceName: "set (orderByDeviceName rows) = set rows"
  by (auto simp: orderByDeviceName_def)

lemma mergeCandidates_mem:
  "d \<in> set (mergeCandidates device s) \<Longrightarrow> d \<in> set (devices s) \<and> azure_device_id d \<noteq> None"
  using set_fetchAzureBatches [of "orderByDeviceName
      (filter (\<lambda>d. azure_device_id d \<noteq> None
         \<and> (ninja_device_id d = None \<or> ninja_device_id d = Some (nd_id device))) (devices s))" 0 "[]"]
  by (auto simp: mergeCandidates_def set_orderByDeviceName)

lemma head_of_sorted_mem:
  "(if c then sort_key f rows else rows) = d # rest \<Longrightarrow> d \<in> set rows"
proof -
  assume eq: "(if c then sort_key f rows else rows) = d # rest"
  have "set (if c then sort_key f rows else rows) = set rows" by simp
  with eq have "set (d # rest) = set rows" by simp
  then show ?thesis by auto
qed

lemma azureDeviceBySerial_mem:
  assumes "azureDeviceBySerial device deviceDetails s = Some d"
  shows "d \<in> set (devices s)"
proof -
  define rows where "rows = filter (\<lambda>d. azure_device_id d \<noteq> None
      \<and> (ninja_device_id d = None \<or> ninja_device_id d = Some (nd_id device))
      \<and> ilike (serial_number d) (trim (toUpperCase (ninjaSerialNumber deviceDetails)))) (devices s)"
  have def: "azureDeviceBySerial device deviceDetails s =
     (if ninjaSerialNumber deviceDetails \<noteq> [] then
        (case (if length rows > 1 then sort_key (\<lambda>d. - int (last_synced_at d)) rows else rows) of
           [] \<Rightarrow> None
         | bestMatch # rest \<Rightarrow>
             if truthy (ninja_device_id bestMatch) \<and> ninja_device_id bestMatch \<noteq> Some (nd_id device)
             then None else Some bestMatch)
      else None)"
    unfolding azureDeviceBySerial_def rows_def Let_def ..
  from assms obtain rest where
    "(if length rows > 1 then sort_key (\<lambda>d. - int (last_synced_at d)) rows else rows) = d # rest"
    unfolding def by (auto split: if_splits list.splits)
  then have "d \<in> set rows" by (rule head_of_sorted_mem)
  then show ?thesis by (simp add: rows_def)
qed


lemma ninjaDeviceData_keys [simp]:
  "dd_employee_id (ninjaDeviceData device deviceDetails existing now)
     = (case existing of Some e \<Rightarrow> employee_id e | None \<Rightarrow> None)"
  "dd_azure_device_id (ninjaDeviceData device deviceDetails existing now)
     = (case existing of
          Some e \<Rightarrow> if truthy (azure_device_id e) then azure_device_id e else None
        | None \<Rightarrow> None)"
  by (simp_all add: ninjaDeviceData_def)








section \<open>What a write leaves alone\<close>

lemma filter_map_unchanged:
  "(\<And>a. a \<in> set xs \<Longrightarrow> P (g a) = P a \<and> (P a \<longrightarrow> g a = a)) \<Longrightarrow> filter P (map g xs) = filter P xs"
  by (induction xs) auto

lemma entries_of_update_history:
  assumes "\<And>h. h \<in> set (history s) \<Longrightarrow> match h \<Longrightarrow> h_device_id h \<noteq> x \<and> h_device_id (change h) \<noteq> x"
  shows "entries_of (update_history match change s) x = entries_of s x"
  unfolding entries_of_def update_history_def
  using assms by (simp add: filter_map_unchanged)

lemma entries_of_insert_history:
  "h_device_id h \<noteq> x \<Longrightarrow> entries_of (insert_history h s) x = entries_of s x"
  by (simp add: entries_of_def insert_history_def)

lemma entries_of_setEmployee [simp]: "entries_of (setEmployee y emp s) x = entries_of s x"
  by (simp add: entries_of_def)

lemma entries_of_closeAssignment:
  "y \<noteq> x \<Longrightarrow> entries_of (closeAssignment y e now s) x = entries_of s x"
  unfolding closeAssignment_def by (rule entries_of_update_history) simp

lemma entries_of_closePrevious:
  "dev_id deviceRecord \<noteq> x \<Longrightarrow> entries_of (closePrevious deviceRecord w now s) x = entries_of s x"
  by (simp add: closePrevious_def entries_of_closeAssignment split: option.splits)

lemma entries_of_recordCurrent:
  assumes "consistent s" "dev_id deviceRecord \<noteq> x"
  shows "entries_of (recordCurrent deviceRecord k winningRelationship now syncLogId s) x = entries_of s x"
proof (cases "single (filter (\<lambda>h. h_device_id h = dev_id deviceRecord
      \<and> h_employee_id h = rel_employee_id winningRelationship \<and> is_current h) (history s))")
  case None
  with assms(2) show ?thesis by (simp add: recordCurrent_def entries_of_insert_history)
next
  case (Some existingHistory)
  then have e: "existingHistory \<in> set (history s)" "h_device_id existingHistory = dev_id deviceRecord"
    by (auto dest: single_filter_mem)
  from assms(1) have dist: "distinct (map h_id (history s))" by (simp add: consistent_def)
  have "entries_of (update_history (\<lambda>h. h_id h = h_id existingHistory)
      (\<lambda>h. h\<lparr>registered_date := rel_registered_date winningRelationship\<rparr>) s) x = entries_of s x"
  proof (rule entries_of_update_history)
    fix h assume h: "h \<in> set (history s)" "h_id h = h_id existingHistory"
    with dist e(1) have "h = existingHistory" by (meson distinct_map inj_onD)
    with e(2) assms(2)
    show "h_device_id h \<noteq> x
        \<and> h_device_id (h\<lparr>registered_date := rel_registered_date winningRelationship\<rparr>) \<noteq> x"
      by simp
  qed
  with Some show ?thesis by (simp add: recordCurrent_def)
qed

lemma entries_of_recordOther:
  "dev_id deviceRecord \<noteq> x \<Longrightarrow>
   entries_of (recordOther deviceRecord k now syncLogId rel s) x = entries_of s x"
  by (simp add: recordOther_def entries_of_insert_history split: option.splits)

lemma entries_of_recordOthers:
  "dev_id deviceRecord \<noteq> x \<Longrightarrow>
   entries_of (fold (recordOther deviceRecord k now syncLogId) others s) x = entries_of s x"
  by (induction others arbitrary: s) (simp_all add: entries_of_recordOther)

lemma devices_recordCurrent [simp]:
  "devices (recordCurrent deviceRecord k winningRelationship now syncLogId s) = devices s"
  by (simp add: recordCurrent_def insert_history_def update_history_def split: option.splits)

lemma devices_recordOther [simp]:
  "devices (recordOther deviceRecord k now syncLogId rel s) = devices s"
  by (simp add: recordOther_def insert_history_def split: option.splits)

lemma devices_recordOthers [simp]:
  "devices (fold (recordOther deviceRecord k now syncLogId) others s) = devices s"
  by (induction others arbitrary: s) simp_all

text \<open>The shape of one resolution: nothing, or the four writes on the device found.\<close>

lemma resolveDevice_cases:
  obtains (skip) "resolveDevice now syncLogId entry s = s"
  | (resolved) deviceRecord winningRelationship others where
      "single (filter (\<lambda>d. azure_device_id d = Some (fst entry)) (devices s)) = Some deviceRecord"
      "sortedRelationships (snd entry) = winningRelationship # others"
      "resolveDevice now syncLogId entry s =
         fold (recordOther deviceRecord (fst entry) now syncLogId) others
           (recordCurrent deviceRecord (fst entry) winningRelationship now syncLogId
              (setEmployee (dev_id deviceRecord) (Some (rel_employee_id winningRelationship))
                 (closePrevious deviceRecord (rel_employee_id winningRelationship) now s)))"
proof (cases "single (filter (\<lambda>d. azure_device_id d = Some (fst entry)) (devices s))")
  case None
  then have "resolveDevice now syncLogId entry s = s" by (simp add: resolveDevice_def)
  then show ?thesis by (rule skip)
next
  case (Some deviceRecord)
  show ?thesis
  proof (cases "sortedRelationships (snd entry)")
    case Nil
    with Some have "resolveDevice now syncLogId entry s = s" by (simp add: resolveDevice_def)
    then show ?thesis by (rule skip)
  next
    case (Cons winningRelationship others)
    with Some show ?thesis by (intro resolved) (simp_all add: resolveDevice_def Let_def)
  qed
qed

lemma devices_resolved:
  "devices (fold (recordOther deviceRecord k now syncLogId) others
     (recordCurrent deviceRecord k winningRelationship now syncLogId
        (setEmployee x emp (closePrevious deviceRecord w now s))))
   = map (\<lambda>d. if dev_id d = x then d\<lparr>employee_id := emp\<rparr> else d) (devices s)"
  by (simp add: devices_setEmployee)

lemma resolveDevice_frame:
  assumes "consistent s" "d0 \<in> set (devices s)" "azure_device_id d0 \<noteq> Some (fst entry)"
  shows "d0 \<in> set (devices (resolveDevice now syncLogId entry s))"
    and "entries_of (resolveDevice now syncLogId entry s) (dev_id d0) = entries_of s (dev_id d0)"
proof -
  have "d0 \<in> set (devices (resolveDevice now syncLogId entry s))
      \<and> entries_of (resolveDevice now syncLogId entry s) (dev_id d0) = entries_of s (dev_id d0)"
  proof (cases rule: resolveDevice_cases [of now syncLogId entry s])
    case skip
    with assms(2) show ?thesis by simp
  next
    case (resolved deviceRecord winningRelationship others)
    from resolved(1) have dr: "deviceRecord \<in> set (devices s)"
      "azure_device_id deviceRecord = Some (fst entry)"
      by (auto dest: single_filter_mem)
    with assms(3) have "deviceRecord \<noteq> d0" by auto
    moreover from assms(1) have "distinct (map dev_id (devices s))" by (simp add: consistent_def)
    ultimately have ne: "dev_id deviceRecord \<noteq> dev_id d0"
      using distinct_dev_id_eq [OF _ dr(1) assms(2)] by blast
    let ?w = "rel_employee_id winningRelationship"
    let ?s2 = "setEmployee (dev_id deviceRecord) (Some ?w) (closePrevious deviceRecord ?w now s)"
    from assms(1) dr(1) have c2: "consistent ?s2" by (rule consistent_assignWinner)
    from ne assms(2) have "d0 \<in> set (devices (resolveDevice now syncLogId entry s))"
      unfolding resolved(3) devices_resolved by force
    moreover have "entries_of (resolveDevice now syncLogId entry s) (dev_id d0) = entries_of s (dev_id d0)"
      unfolding resolved(3)
      by (simp add: ne entries_of_recordOthers entries_of_recordCurrent [OF c2] entries_of_closePrevious)
    ultimately show ?thesis by simp
  qed
  then show "d0 \<in> set (devices (resolveDevice now syncLogId entry s))"
    and "entries_of (resolveDevice now syncLogId entry s) (dev_id d0) = entries_of s (dev_id d0)"
    by simp_all
qed

lemma resolveAll_frame:
  assumes "consistent s" "d0 \<in> set (devices s)"
    "\<forall>entry\<in>set entries. azure_device_id d0 \<noteq> Some (fst entry)"
  shows "consistent (fold (resolveDevice now syncLogId) entries s)
    \<and> d0 \<in> set (devices (fold (resolveDevice now syncLogId) entries s))
    \<and> entries_of (fold (resolveDevice now syncLogId) entries s) (dev_id d0) = entries_of s (dev_id d0)"
  using assms
proof (induction entries arbitrary: s)
  case Nil
  then show ?case by simp
next
  case (Cons entry entries)
  let ?s1 = "resolveDevice now syncLogId entry s"
  from Cons.prems have ne: "azure_device_id d0 \<noteq> Some (fst entry)" by simp
  have "consistent ?s1" using Cons.prems(1) by (rule consistent_resolveDevice)
  moreover note resolveDevice_frame [OF Cons.prems(1,2) ne, of now syncLogId]
  moreover from Cons.prems have "\<forall>entry\<in>set entries. azure_device_id d0 \<noteq> Some (fst entry)"
    by simp
  ultimately show ?case using Cons.IH [of ?s1] by simp
qed

section \<open>One resolution: its effect on the device\<close>

lemma mem_map: "a \<in> set xs \<Longrightarrow> g a \<in> set (map g xs)"
  by simp





lemma closed_by_closeAssignment:
  assumes "h \<in> set (history s)" "h_device_id h = x" "h_employee_id h = e" "is_current h"
  shows "closed now h \<in> set (history (closeAssignment x e now s))"
proof -
  let ?g = "\<lambda>h. if h_device_id h = x \<and> h_employee_id h = e \<and> is_current h
      then h\<lparr>is_current := False, unassignment_date := Some now\<rparr> else h"
  from assms(1) have "?g h \<in> set (map ?g (history s))" by (rule mem_map)
  moreover from assms have "?g h = closed now h" by (simp add: closed_def)
  ultimately show ?thesis by (simp add: closeAssignment_def update_history_def del: set_map)
qed

lemma is_current_closed [simp]: "\<not> is_current (closed now h)"
  by (simp add: closed_def)


section \<open>The lookup by external id is stable\<close>




section \<open>Unregistered devices\<close>

lemma devices_unregisterDevice:
  "devices (unregisterDevice now u s)
     = map (\<lambda>d. if dev_id d = dev_id u then d\<lparr>employee_id := None\<rparr> else d) (devices s)"
  by (simp add: unregisterDevice_def devices_setEmployee split: option.splits)

lemma unregisterDevice_frame:
  assumes "d0 \<in> set (devices s)" "dev_id d0 \<noteq> dev_id u"
  shows "d0 \<in> set (devices (unregisterDevice now u s))"
    and "entries_of (unregisterDevice now u s) (dev_id d0) = entries_of s (dev_id d0)"
proof -
  let ?f = "\<lambda>d. if dev_id d = dev_id u then d\<lparr>employee_id := None\<rparr> else d"
  from assms(1) have "?f d0 \<in> set (map ?f (devices s))" by (rule mem_map)
  with assms(2) show "d0 \<in> set (devices (unregisterDevice now u s))"
    unfolding devices_unregisterDevice by simp
  from assms(2) show "entries_of (unregisterDevice now u s) (dev_id d0) = entries_of s (dev_id d0)"
    by (simp add: unregisterDevice_def entries_of_closeAssignment split: option.splits)
qed

lemma unregisterDevice_effect:
  assumes "u \<in> set (devices s)" "employee_id u = Some e"
  shows "u\<lparr>employee_id := None\<rparr> \<in> set (devices (unregisterDevice now u s))"
    and "\<forall>h\<in>set (history s). h_device_id h = dev_id u \<and> h_employee_id h = e \<and> is_current h
           \<longrightarrow> closed now h \<in> set (entries_of (unregisterDevice now u s) (dev_id u))"
proof -
  let ?f = "\<lambda>d. if dev_id d = dev_id u then d\<lparr>employee_id := None\<rparr> else d"
  from assms(1) have "?f u \<in> set (map ?f (devices s))" by (rule mem_map)
  then show "u\<lparr>employee_id := None\<rparr> \<in> set (devices (unregisterDevice now u s))"
    unfolding devices_unregisterDevice by simp
  show "\<forall>h\<in>set (history s). h_device_id h = dev_id u \<and> h_employee_id h = e \<and> is_current h
      \<longrightarrow> closed now h \<in> set (entries_of (unregisterDevice now u s) (dev_id u))"
  proof (intro ballI impI)
    fix h assume h: "h \<in> set (history s)"
      "h_device_id h = dev_id u \<and> h_employee_id h = e \<and> is_current h"
    with closed_by_closeAssignment [OF h(1), of "dev_id u" e now]
    have "closed now h \<in> set (history (closeAssignment (dev_id u) e now s))" by simp
    moreover from h have "h_device_id (closed now h) = dev_id u" by (simp add: closed_def)
    ultimately show "closed now h \<in> set (entries_of (unregisterDevice now u s) (dev_id u))"
      using assms(2) by (simp add: unregisterDevice_def entries_of_def)
  qed
qed

lemma unregister_fold_frame:
  assumes "consistent s" "set us \<subseteq> set (devices s)" "distinct (map dev_id us)"
    "d0 \<in> set (devices s)" "dev_id d0 \<notin> dev_id ` set us"
  shows "consistent (fold (unregisterDevice now) us s)
    \<and> d0 \<in> set (devices (fold (unregisterDevice now) us s))
    \<and> entries_of (fold (unregisterDevice now) us s) (dev_id d0) = entries_of s (dev_id d0)"
  using assms
proof (induction us arbitrary: s)
  case Nil
  then show ?case by simp
next
  case (Cons u us)
  let ?s1 = "unregisterDevice now u s"
  from Cons.prems have u: "u \<in> set (devices s)" "dev_id d0 \<noteq> dev_id u" by auto
  have c1: "consistent ?s1" using Cons.prems(1) u(1) by (rule consistent_unregisterDevice)
  have sub: "set us \<subseteq> set (devices ?s1)"
  proof
    fix u' assume u': "u' \<in> set us"
    then have "dev_id u' \<in> dev_id ` set us" by (rule imageI)
    moreover from Cons.prems have "dev_id u \<notin> dev_id ` set us" by simp
    ultimately have "dev_id u' \<noteq> dev_id u" by metis
    moreover from u' Cons.prems have "u' \<in> set (devices s)" by auto
    ultimately show "u' \<in> set (devices ?s1)" by (intro unregisterDevice_frame)
  qed
  note fr = unregisterDevice_frame [OF Cons.prems(4) u(2), of now]
  from Cons.prems have "distinct (map dev_id us)" "dev_id d0 \<notin> dev_id ` set us" by auto
  from Cons.IH [OF c1 sub this(1) fr(1) this(2)] fr(2) show ?case by simp
qed

lemma unregister_fold_effect:
  assumes "consistent s" "set us \<subseteq> set (devices s)" "distinct (map dev_id us)"
    "u \<in> set us" "employee_id u = Some e"
  shows "consistent (fold (unregisterDevice now) us s)
    \<and> u\<lparr>employee_id := None\<rparr> \<in> set (devices (fold (unregisterDevice now) us s))
    \<and> (\<forall>h\<in>set (history s). h_device_id h = dev_id u \<and> h_employee_id h = e \<and> is_current h
          \<longrightarrow> closed now h \<in> set (entries_of (fold (unregisterDevice now) us s) (dev_id u)))"
  using assms
proof (induction us arbitrary: s)
  case Nil
  then show ?case by simp
next
  case (Cons u' us)
  let ?s1 = "unregisterDevice now u' s"
  from Cons.prems have u'mem: "u' \<in> set (devices s)" by simp
  have c1: "consistent ?s1" using Cons.prems(1) u'mem by (rule consistent_unregisterDevice)
  have sub: "set us \<subseteq> set (devices ?s1)"
  proof
    fix v assume v: "v \<in> set us"
    then have "dev_id v \<in> dev_id ` set us" by (rule imageI)
    moreover from Cons.prems have "dev_id u' \<notin> dev_id ` set us" by simp
    ultimately have "dev_id v \<noteq> dev_id u'" by metis
    moreover from v Cons.prems have "v \<in> set (devices s)" by auto
    ultimately show "v \<in> set (devices ?s1)" by (intro unregisterDevice_frame)
  qed
  from Cons.prems have dist: "distinct (map dev_id us)" by simp
  show ?case
  proof (cases "u = u'")
    case True
    note eff = unregisterDevice_effect [OF u'mem, of e now] 
    from True Cons.prems have e: "employee_id u' = Some e" by simp
    let ?d0 = "u'\<lparr>employee_id := None\<rparr>"
    from Cons.prems have "dev_id ?d0 \<notin> dev_id ` set us" by auto
    from unregister_fold_frame [OF c1 sub dist eff(1) [OF e] this, of now]
    have fr: "consistent (fold (unregisterDevice now) us ?s1)"
      "?d0 \<in> set (devices (fold (unregisterDevice now) us ?s1))"
      "entries_of (fold (unregisterDevice now) us ?s1) (dev_id u') = entries_of ?s1 (dev_id u')"
      by simp_all
    with eff(2) [OF e] True show ?thesis by simp
  next
    case False
    with Cons.prems have u1: "u \<in> set us" "u \<in> set (devices s)" by auto
    then have "dev_id u \<in> dev_id ` set us" by simp
    moreover from Cons.prems have "dev_id u' \<notin> dev_id ` set us" by simp
    ultimately have "dev_id u \<noteq> dev_id u'" by metis
    with u1 have u: "u \<in> set us" "u \<in> set (devices s)" "dev_id u \<noteq> dev_id u'" by simp_all
    note fr = unregisterDevice_frame [OF u(2,3), of now]
    from Cons.IH [OF c1 sub dist u(1) Cons.prems(5)]
    have ih: "consistent (fold (unregisterDevice now) us ?s1)"
      "u\<lparr>employee_id := None\<rparr> \<in> set (devices (fold (unregisterDevice now) us ?s1))"
      "\<forall>h\<in>set (history ?s1). h_device_id h = dev_id u \<and> h_employee_id h = e \<and> is_current h
         \<longrightarrow> closed now h \<in> set (entries_of (fold (unregisterDevice now) us ?s1) (dev_id u))"
      by simp_all
    have "closed now h \<in> set (entries_of (fold (unregisterDevice now) us ?s1) (dev_id u))"
      if h: "h \<in> set (history s)" "h_device_id h = dev_id u \<and> h_employee_id h = e \<and> is_current h"
      for h
    proof -
      from h have "h \<in> set (entries_of s (dev_id u))" by (simp add: entries_of_def)
      with fr(2) have "h \<in> set (entries_of ?s1 (dev_id u))" by simp
      then have "h \<in> set (history ?s1)" unfolding entries_of_def by simp
      with ih(3) h(2) show ?thesis by blast
    qed
    with ih(1,2) show ?thesis by simp
  qed
qed

lemma unregisteredDevices_sub:
  "set (unregisteredDevices entries s) \<subseteq> set (devices s)"
  by (auto simp: unregisteredDevices_def)

lemma unregisteredDevices_distinct:
  "consistent s \<Longrightarrow> distinct (map dev_id (unregisteredDevices entries s))"
  by (simp add: unregisteredDevices_def consistent_def distinct_map_filter)

lemma consistent_unregisterAll:
  assumes "consistent s"
  shows "consistent (unregisterAll entries now s)"
proof (cases "devices s")
  case Nil
  with assms show ?thesis by (simp add: unregisterAll_def unregisteredDevices_def)
next
  case (Cons d ds)
  show ?thesis
  proof (cases "unregisteredDevices entries s")
    case Nil
    with assms show ?thesis by (simp add: unregisterAll_def)
  next
    case (Cons u us)
    then have "u \<in> set (unregisteredDevices entries s)" by simp
    then obtain e where "employee_id u = Some e" by (auto simp: unregisteredDevices_def)
    from unregister_fold_effect [OF assms unregisteredDevices_sub
        unregisteredDevices_distinct [OF assms] \<open>u \<in> set (unregisteredDevices entries s)\<close> this]
    show ?thesis by (simp add: unregisterAll_def)
  qed
qed

lemma consistent_reconcile:
  "consistent s \<Longrightarrow> consistent (reconcile entries now syncLogId s)"
proof -
  assume "consistent s"
  then have c: "consistent (unregisterAll entries now s)" by (rule consistent_unregisterAll)
  have "consistent (fold (resolveDevice now syncLogId) es s')" if "consistent s'" for es s'
    using that by (induction es arbitrary: s') (simp_all add: consistent_resolveDevice)
  from this [OF c] show ?thesis by (simp add: reconcile_def)
qed



lemma not_unregistered_frame:
  assumes "consistent s" "d0 \<in> set (devices s)" "d0 \<notin> set (unregisteredDevices entries s)"
  shows "d0 \<in> set (devices (unregisterAll entries now s))"
    and "entries_of (unregisterAll entries now s) (dev_id d0) = entries_of s (dev_id d0)"
proof -
  from assms(1) have dist: "distinct (map dev_id (devices s))" by (simp add: consistent_def)
  have "dev_id d0 \<notin> dev_id ` set (unregisteredDevices entries s)"
  proof
    assume "dev_id d0 \<in> dev_id ` set (unregisteredDevices entries s)"
    then obtain u where u: "u \<in> set (unregisteredDevices entries s)" "dev_id d0 = dev_id u"
      by auto
    with unregisteredDevices_sub [of entries s] have "u \<in> set (devices s)" by auto
    from distinct_dev_id_eq [OF dist assms(2) this u(2)] u(1) assms(3) show False by simp
  qed
  from unregister_fold_frame [OF assms(1) unregisteredDevices_sub
      unregisteredDevices_distinct [OF assms(1)] assms(2) this, of now]
  show "d0 \<in> set (devices (unregisterAll entries now s))"
    and "entries_of (unregisterAll entries now s) (dev_id d0) = entries_of s (dev_id d0)"
    by (simp_all add: unregisterAll_def)
qed




lemma reconcile_unregistered:
  assumes c: "consistent s"
    and d: "d \<in> set (devices s)" "azure_device_id d = Some a" "a \<noteq> []"
      "a \<notin> set (map fst entries)" "employee_id d = Some e"
  shows "consistent (reconcile entries now syncLogId s)"
    and "d\<lparr>employee_id := None\<rparr> \<in> set (devices (reconcile entries now syncLogId s))"
    and "\<forall>h\<in>set (history s). h_device_id h = dev_id d \<and> h_employee_id h = e \<and> is_current h
           \<longrightarrow> closed now h \<in> set (history (reconcile entries now syncLogId s))"
proof -
  let ?x = "dev_id d"
  let ?d0 = "d\<lparr>employee_id := None\<rparr>"
  let ?s1 = "unregisterAll entries now s"
  from d have inU: "d \<in> set (unregisteredDevices entries s)"
    by (simp add: unregisteredDevices_def or_empty_def)
  from unregister_fold_effect [OF c unregisteredDevices_sub unregisteredDevices_distinct [OF c]
      inU d(5), of now]
  have c1: "consistent ?s1" and d1: "?d0 \<in> set (devices ?s1)"
    and h1: "\<forall>h\<in>set (history s). h_device_id h = ?x \<and> h_employee_id h = e \<and> is_current h
        \<longrightarrow> closed now h \<in> set (entries_of ?s1 ?x)"
    by (simp_all add: unregisterAll_def)
  from d(2,4) have "\<forall>entry\<in>set entries. azure_device_id ?d0 \<noteq> Some (fst entry)" by auto
  from resolveAll_frame [OF c1 d1 this, of now syncLogId]
  have c2: "consistent (reconcile entries now syncLogId s)"
    and d2: "?d0 \<in> set (devices (reconcile entries now syncLogId s))"
    and e2: "entries_of (reconcile entries now syncLogId s) ?x = entries_of ?s1 ?x"
    by (simp_all add: reconcile_def)
  from c2 show "consistent (reconcile entries now syncLogId s)" .
  from d2 show "?d0 \<in> set (devices (reconcile entries now syncLogId s))" .
  show "\<forall>h\<in>set (history s). h_device_id h = dev_id d \<and> h_employee_id h = e \<and> is_current h
      \<longrightarrow> closed now h \<in> set (history (reconcile entries now syncLogId s))"
  proof (intro ballI impI)
    fix h assume "h \<in> set (history s)" "h_device_id h = ?x \<and> h_employee_id h = e \<and> is_current h"
    with h1 have "closed now h \<in> set (entries_of ?s1 ?x)" by blast
    with e2 have "closed now h \<in> set (entries_of (reconcile entries now syncLogId s) ?x)" by simp
    then show "closed now h \<in> set (history (reconcile entries now syncLogId s))"
      unfolding entries_of_def by simp
  qed
qed

lemma reconcile_untouched:
  assumes c: "consistent s" and d: "d0 \<in> set (devices s)" "azure_device_id d0 = None"
  shows "d0 \<in> set (devices (reconcile entries now syncLogId s))"
    and "entries_of (reconcile entries now syncLogId s) (dev_id d0) = entries_of s (dev_id d0)"
proof -
  let ?s1 = "unregisterAll entries now s"
  have c1: "consistent ?s1" using c by (rule consistent_unregisterAll)
  from d(2) have notU: "d0 \<notin> set (unregisteredDevices entries s)"
    by (simp add: unregisteredDevices_def)
  note fr1 = not_unregistered_frame [OF c d(1) notU, of now]
  from d(2) have "\<forall>entry\<in>set entries. azure_device_id d0 \<noteq> Some (fst entry)" by simp
  from resolveAll_frame [OF c1 fr1(1) this, of now syncLogId] fr1(2)
  show "d0 \<in> set (devices (reconcile entries now syncLogId s))"
    and "entries_of (reconcile entries now syncLogId s) (dev_id d0) = entries_of s (dev_id d0)"
    by (simp_all add: reconcile_def)
qed

lemma only_row_with_id:
  assumes "consistent s" "d \<in> set (devices s)" "d' \<in> set (devices s)" "dev_id d' = dev_id d"
  shows "d' = d"
proof -
  from assms(1) have "distinct (map dev_id (devices s))" by (simp add: consistent_def)
  from distinct_dev_id_eq [OF this assms(3,2,4)] show ?thesis .
qed


section \<open>Every reachable store is consistent\<close>








lemma reachable_ninjaSyncAll:
  "reachable s \<Longrightarrow> reachable (ninjaSyncAll ninjaDevices now s)"
  unfolding ninjaSyncAll_def
  by (induction ninjaDevices arbitrary: s) (auto simp: reachable.device_sync)


section \<open>At most one current entry\<close>




section \<open>The conflict resolver\<close>

lemma consistent_assigned_store: "consistent assigned_store"
  by (simp add: consistent_def assigned_store_def laptop_def laptop_entry_def blank_device_def)




section \<open>Unregistered devices are released\<close>

text \<open>
  C4. After the reconciliation of a directory sync run, a device with an
  \<open>azure_device_id\<close> and an \<open>employee_id\<close> whose external id was observed for no user in the
  run has \<open>employee_id = null\<close>, its current history entry is closed (\<open>is_current = false\<close>,
  \<open>unassignment_date\<close> stamped) and it has no current entry left. A device without an
  \<open>azure_device_id\<close> is left as it was, and so are its history entries.
\<close>

theorem reconcile_clears_unregistered:
  assumes "consistent s"
    and "d \<in> set (devices s)"
    and "azure_device_id d = Some a"
    and "a \<notin> set (map fst entries)"
    and "employee_id d = Some e"
  shows "d\<lparr>employee_id := None\<rparr> \<in> set (devices (reconcile entries now syncLogId s))
    \<and> (\<forall>d'\<in>set (devices (reconcile entries now syncLogId s)).
          dev_id d' = dev_id d \<longrightarrow> employee_id d' = None)
    \<and> (\<forall>h\<in>set (history s).
          h_device_id h = dev_id d \<and> h_employee_id h = e \<and> is_current h
          \<longrightarrow> closed now h \<in> set (history (reconcile entries now syncLogId s)))
    \<and> current_entries (reconcile entries now syncLogId s) (dev_id d) = []
    \<and> (\<forall>d0\<in>set (devices s). azure_device_id d0 = None
          \<longrightarrow> d0 \<in> set (devices (reconcile entries now syncLogId s))
            \<and> entries_of (reconcile entries now syncLogId s) (dev_id d0) = entries_of s (dev_id d0))"
proof -
  let ?s' = "reconcile entries now syncLogId s"
  from assms(1,2,3) have ne: "a \<noteq> []" by (auto simp: consistent_def)
  note ru = reconcile_unregistered [OF assms(1,2,3) ne assms(4,5), of now syncLogId]
  have only: "\<forall>d'\<in>set (devices ?s'). dev_id d' = dev_id d \<longrightarrow> employee_id d' = None"
  proof (intro ballI impI)
    fix d' assume "d' \<in> set (devices ?s')" "dev_id d' = dev_id d"
    with only_row_with_id [OF ru(1) ru(2), of d'] show "employee_id d' = None" by simp
  qed
  have nocur: "current_entries ?s' (dev_id d) = []"
  proof (rule ccontr)
    assume "current_entries ?s' (dev_id d) \<noteq> []"
    then obtain h where "h \<in> set (current_entries ?s' (dev_id (d\<lparr>employee_id := None\<rparr>)))"
      by (cases "current_entries ?s' (dev_id d)") auto
    from current_entries_employee [OF ru(1) ru(2) this] show False by simp
  qed
  have untouched: "\<forall>d0\<in>set (devices s). azure_device_id d0 = None
      \<longrightarrow> d0 \<in> set (devices ?s') \<and> entries_of ?s' (dev_id d0) = entries_of s (dev_id d0)"
    using reconcile_untouched [OF assms(1)] by blast
  from ru(2,3) only nocur untouched show ?thesis by blast
qed

theorem reconcile_clears_unregistered_witness:
  "consistent assigned_store
   \<and> laptop \<in> set (devices assigned_store)
   \<and> azure_device_id laptop = Some ''az-1''
   \<and> employee_id laptop = Some 10
   \<and> laptop\<lparr>employee_id := None\<rparr> \<in> set (devices (reconcile [] 500 7 assigned_store))
   \<and> closed 500 laptop_entry \<in> set (history (reconcile [] 500 7 assigned_store))
   \<and> current_entries (reconcile [] 500 7 assigned_store) (dev_id laptop) = []"
proof -
  have d: "laptop \<in> set (devices assigned_store)" "azure_device_id laptop = Some ''az-1''"
    "''az-1'' \<notin> set (map fst ([] :: relationships))" "employee_id laptop = Some 10"
    by (simp_all add: assigned_store_def laptop_def)
  have h: "laptop_entry \<in> set (history assigned_store)" "h_device_id laptop_entry = dev_id laptop"
    "h_employee_id laptop_entry = 10" "is_current laptop_entry"
    by (simp_all add: assigned_store_def laptop_entry_def laptop_def)
  from reconcile_clears_unregistered [OF consistent_assigned_store d, of 500 7] h
  have "laptop\<lparr>employee_id := None\<rparr> \<in> set (devices (reconcile [] 500 7 assigned_store))"
    and "closed 500 laptop_entry \<in> set (history (reconcile [] 500 7 assigned_store))"
    and "current_entries (reconcile [] 500 7 assigned_store) (dev_id laptop) = []"
    by auto
  with consistent_assigned_store d show ?thesis by simp
qed


section \<open>The device sync and the employee of a device\<close>

lemma updateDevice_employee:
  assumes dist: "distinct (map dev_id (devices s))"
    and d: "d \<in> set (devices s)" "employee_id d = Some e"
    and d': "d' \<in> set (devices (updateDevice target dd s))" "dev_id d' = dev_id d"
    and dd: "dev_id d = target \<Longrightarrow> dd_employee_id dd = None \<or> dd_employee_id dd = Some e"
  shows "employee_id d' = Some e"
proof -
  from d'(1) obtain x where x: "x \<in> set (devices s)"
    "d' = (if dev_id x = target then write_ninja_data dd x else x)"
    by (auto simp: updateDevice_def update_devices_def)
  then have "dev_id d' = dev_id x" by simp
  with d'(2) have "dev_id x = dev_id d" by simp
  from distinct_dev_id_eq [OF dist x(1) d(1) this] have "x = d" .
  with x(2) d(2) dd show ?thesis by (auto split: option.splits)
qed

lemma updateDevice_row:
  assumes "d \<in> set (devices s)"
  shows "\<exists>d'\<in>set (devices (updateDevice target dd s)). dev_id d' = dev_id d"
proof -
  let ?f = "\<lambda>d. if dev_id d = target then write_ninja_data dd d else d"
  from assms have "?f d \<in> set (map ?f (devices s))" by (rule mem_map)
  then have "?f d \<in> set (devices (updateDevice target dd s))"
    by (simp add: updateDevice_def update_devices_def)
  moreover have "dev_id (?f d) = dev_id d" by simp
  ultimately show ?thesis by (rule bexI [rotated])
qed

lemma updateDevice_ids:
  "d' \<in> set (devices (updateDevice target dd s)) \<Longrightarrow> \<exists>x\<in>set (devices s). dev_id x = dev_id d'"
  by (auto simp: updateDevice_def update_devices_def)

lemma ninjaSyncDevice_employee_kept:
  assumes c: "consistent s"
    and d: "d \<in> set (devices s)" "employee_id d = Some e"
    and d': "d' \<in> set (devices (ninjaSyncDevice device deviceDetails now s))" "dev_id d' = dev_id d"
  shows "employee_id d' = Some e"
proof -
  from c have dist: "distinct (map dev_id (devices s))" by (simp add: consistent_def)
  show ?thesis
  proof (cases "ninjaFindExisting device deviceDetails s")
    case None
    show ?thesis
    proof (cases "azureDeviceBySerial device deviceDetails s")
      case None
      with \<open>ninjaFindExisting device deviceDetails s = None\<close> d'(1)
      have "d' \<in> set (devices s) \<or> dev_id d' = next_id s"
        by (auto simp: ninjaSyncDevice_def Let_def insertDevice_def insert_device_def)
      moreover from c d(1) have "dev_id d < next_id s" by (simp add: consistent_def)
      ultimately have "d' \<in> set (devices s)" using d'(2) by auto
      from distinct_dev_id_eq [OF dist this d(1) d'(2)] d(2) show ?thesis by simp
    next
      case (Some existingDevice)
      let ?dd = "(ninjaDeviceData device deviceDetails None now)
              \<lparr>dd_azure_device_id :=
                 (if truthy (azure_device_id existingDevice)
                  then azure_device_id existingDevice
                  else dd_azure_device_id (ninjaDeviceData device deviceDetails None now)),
               dd_employee_id :=
                 (case employee_id existingDevice of
                    Some e \<Rightarrow> Some e
                  | None \<Rightarrow> dd_employee_id (ninjaDeviceData device deviceDetails None now))\<rparr>"
      from Some \<open>ninjaFindExisting device deviceDetails s = None\<close> d'(1)
      have m: "d' \<in> set (devices (updateDevice (dev_id existingDevice) ?dd s))"
        by (simp add: ninjaSyncDevice_def Let_def)
      have mem: "existingDevice \<in> set (devices s)" by (rule azureDeviceBySerial_mem [OF Some])
      show ?thesis
      proof (rule updateDevice_employee [OF dist d m d'(2)])
        assume "dev_id d = dev_id existingDevice"
        from distinct_dev_id_eq [OF dist d(1) mem this] d(2)
        show "dd_employee_id ?dd = None \<or> dd_employee_id ?dd = Some e" by simp
      qed
    qed
  next
    case (Some found)
    obtain rule existingDevice where found: "found = (rule, existingDevice)" by (cases found)
    with Some have mem: "existingDevice \<in> set (devices s)" by (auto dest: ninjaFindExisting_mem)
    let ?dd = "ninjaDeviceData device deviceDetails (Some existingDevice) now"
    have plain: "employee_id d' = Some e"
      if m: "d' \<in> set (devices (updateDevice (dev_id existingDevice) ?dd s))"
    proof (rule updateDevice_employee [OF dist d m d'(2)])
      assume "dev_id d = dev_id existingDevice"
      from distinct_dev_id_eq [OF dist d(1) mem this] d(2)
      show "dd_employee_id ?dd = None \<or> dd_employee_id ?dd = Some e" by simp
    qed
    show ?thesis
    proof (cases "\<not> truthy (azure_device_id existingDevice) \<and> ninjaSerialNumber deviceDetails \<noteq> []")
      case False
      with Some found d'(1) have "d' \<in> set (devices (updateDevice (dev_id existingDevice) ?dd s))"
        by (auto simp: ninjaSyncDevice_def Let_def)
      then show ?thesis by (rule plain)
    next
      case True
      show ?thesis
      proof (cases "find (serialMatchesName device
          (strip_non_alnum (toLowerCase (ninjaSerialNumber deviceDetails)))) (mergeCandidates device s)")
        case None
        with True Some found d'(1)
        have "d' \<in> set (devices (updateDevice (dev_id existingDevice) ?dd s))"
          by (auto simp: ninjaSyncDevice_def Let_def)
        then show ?thesis by (rule plain)
      next
        case (Some azureDevice)
        then have "azureDevice \<in> set (mergeCandidates device s)" by (auto dest: find_mem)
        then have az: "azureDevice \<in> set (devices s)" "azure_device_id azureDevice \<noteq> None"
          by (auto dest: mergeCandidates_mem)
        with c have t: "truthy (azure_device_id azureDevice)"
          by (cases "azure_device_id azureDevice") (auto simp: consistent_def)
        let ?s1 = "delete_device (dev_id existingDevice) s"
        let ?dd' = "?dd\<lparr>dd_azure_device_id := azure_device_id azureDevice,
            dd_employee_id :=
              (case employee_id azureDevice of Some e \<Rightarrow> Some e | None \<Rightarrow> dd_employee_id ?dd)\<rparr>"
        from True Some \<open>ninjaFindExisting device deviceDetails s = Some found\<close> found t d'(1)
        have m: "d' \<in> set (devices (updateDevice (dev_id azureDevice) ?dd' ?s1))"
          by (simp add: ninjaSyncDevice_def Let_def)
        have dist1: "distinct (map dev_id (devices ?s1))"
          using dist by (simp add: delete_device_def distinct_map_filter)
        from updateDevice_ids [OF m] d'(2) obtain x where
          x: "x \<in> set (devices ?s1)" "dev_id x = dev_id d" by auto
        then have "x \<in> set (devices s)" by (simp add: delete_device_def)
        from distinct_dev_id_eq [OF dist this d(1) x(2)] x(1) have d1: "d \<in> set (devices ?s1)"
          by simp
        show ?thesis
        proof (rule updateDevice_employee [OF dist1 d1 d(2) m d'(2)])
          assume "dev_id d = dev_id azureDevice"
          from distinct_dev_id_eq [OF dist d(1) az(1) this] d(2)
          show "dd_employee_id ?dd' = None \<or> dd_employee_id ?dd' = Some e" by simp
        qed
      qed
    qed
  qed
qed

lemma ninjaSyncDevice_row_kept:
  assumes c: "consistent s"
    and d: "d \<in> set (devices s)" "truthy (azure_device_id d)"
  shows "\<exists>d'\<in>set (devices (ninjaSyncDevice device deviceDetails now s)). dev_id d' = dev_id d"
proof -
  from c have dist: "distinct (map dev_id (devices s))" by (simp add: consistent_def)
  show ?thesis
  proof (cases "ninjaFindExisting device deviceDetails s")
    case None
    show ?thesis
    proof (cases "azureDeviceBySerial device deviceDetails s")
      case None
      with \<open>ninjaFindExisting device deviceDetails s = None\<close> d(1)
      have "d \<in> set (devices (ninjaSyncDevice device deviceDetails now s))"
        by (simp add: ninjaSyncDevice_def Let_def insertDevice_def insert_device_def)
      then show ?thesis by auto
    next
      case (Some existingDevice)
      with \<open>ninjaFindExisting device deviceDetails s = None\<close> updateDevice_row [OF d(1)]
      show ?thesis by (simp add: ninjaSyncDevice_def Let_def)
    qed
  next
    case (Some found)
    obtain rule existingDevice where found: "found = (rule, existingDevice)" by (cases found)
    show ?thesis
    proof (cases "\<not> truthy (azure_device_id existingDevice) \<and> ninjaSerialNumber deviceDetails \<noteq> []")
      case False
      with Some found updateDevice_row [OF d(1)] show ?thesis
        by (auto simp: ninjaSyncDevice_def Let_def)
    next
      case True
      show ?thesis
      proof (cases "find (serialMatchesName device
          (strip_non_alnum (toLowerCase (ninjaSerialNumber deviceDetails)))) (mergeCandidates device s)")
        case None
        with True Some found updateDevice_row [OF d(1)] show ?thesis
          by (auto simp: ninjaSyncDevice_def Let_def)
      next
        case (Some azureDevice)
        from Some found have mem: "existingDevice \<in> set (devices s)"
          using \<open>ninjaFindExisting device deviceDetails s = Some found\<close>
          by (auto dest: ninjaFindExisting_mem)
        have "dev_id d \<noteq> dev_id existingDevice"
        proof
          assume "dev_id d = dev_id existingDevice"
          from distinct_dev_id_eq [OF dist d(1) mem this] True d(2) show False by simp
        qed
        with d(1) have "d \<in> set (devices (delete_device (dev_id existingDevice) s))"
          by (simp add: delete_device_def)
        from updateDevice_row [OF this] True Some
          \<open>ninjaFindExisting device deviceDetails s = Some found\<close> found
        show ?thesis by (simp add: ninjaSyncDevice_def Let_def)
      qed
    qed
  qed
qed

lemma ninjaSyncDevice_new_row:
  assumes "ninjaFindExisting device deviceDetails s = None"
    and "azureDeviceBySerial device deviceDetails s = None"
  shows "\<exists>d'. devices (ninjaSyncDevice device deviceDetails now s) = devices s @ [d']
           \<and> employee_id d' = None \<and> ninja_device_id d' = Some (nd_id device)"
  using assms
  by (simp add: ninjaSyncDevice_def Let_def insertDevice_def insert_device_def ninjaDeviceData_def)

text \<open>
  C2. The device sync never changes or clears an \<open>employee_id\<close> that is set: in a store
  the syncs can have built, every row that has an employee has the same employee after the
  sync of a NinjaOne device, unless it is a row without \<open>azure_device_id\<close> that the merge
  deletes; a row with an \<open>azure_device_id\<close> is never deleted. A row created for a
  NinjaOne-only device has no employee. But the sync can set the \<open>employee_id\<close> of a row
  that had none, to a value that is not on that row: \<open>deviceData.employee_id\<close> is taken from
  the row found by \<open>ninja_device_id\<close> (line 288); when the merge of lines 298 to 392 then
  replaces \<open>existingDevice\<close> by the Azure row and that row has no employee, line 387 leaves
  the first value in place, and the update of line 405 writes it on the Azure row. In the
  last two conjuncts row 2 has no employee before the run and employee 10 after it, and
  row 1 is deleted.
\<close>

theorem device_sync_employee_id:
  "(consistent s \<and> d \<in> set (devices s) \<and> employee_id d = Some e \<longrightarrow>
      (\<forall>d'\<in>set (devices (ninjaSyncDevice device deviceDetails now s)).
         dev_id d' = dev_id d \<longrightarrow> employee_id d' = Some e)
      \<and> (truthy (azure_device_id d) \<longrightarrow>
           (\<exists>d'\<in>set (devices (ninjaSyncDevice device deviceDetails now s)). dev_id d' = dev_id d)))
   \<and> (ninjaFindExisting device deviceDetails s = None
        \<and> azureDeviceBySerial device deviceDetails s = None \<longrightarrow>
      (\<exists>d'. devices (ninjaSyncDevice device deviceDetails now s) = devices s @ [d']
            \<and> employee_id d' = None))
   \<and> consistent legacy_store
   \<and> map (\<lambda>d. (dev_id d, azure_device_id d, ninja_device_id d, employee_id d)) (devices legacy_store)
       = [(1, None, Some ''7'', Some 10), (2, Some ''az-1'', None, None)]
   \<and> map (\<lambda>d. (dev_id d, azure_device_id d, ninja_device_id d, employee_id d))
         (devices (ninjaSyncDevice ninja7 details7 500 legacy_store))
       = [(2, Some ''az-1'', Some ''7'', Some 10)]"
proof -
  have kept: "consistent s \<and> d \<in> set (devices s) \<and> employee_id d = Some e \<longrightarrow>
      (\<forall>d'\<in>set (devices (ninjaSyncDevice device deviceDetails now s)).
         dev_id d' = dev_id d \<longrightarrow> employee_id d' = Some e)
      \<and> (truthy (azure_device_id d) \<longrightarrow>
           (\<exists>d'\<in>set (devices (ninjaSyncDevice device deviceDetails now s)). dev_id d' = dev_id d))"
    using ninjaSyncDevice_employee_kept [of s d e _ device deviceDetails now]
      ninjaSyncDevice_row_kept [of s d device deviceDetails now]
    by blast
  have new: "ninjaFindExisting device deviceDetails s = None
        \<and> azureDeviceBySerial device deviceDetails s = None \<longrightarrow>
      (\<exists>d'. devices (ninjaSyncDevice device deviceDetails now s) = devices s @ [d']
            \<and> employee_id d' = None)"
    using ninjaSyncDevice_new_row [of device deviceDetails s now] by blast
  have c: "consistent legacy_store"
    by (simp add: consistent_def legacy_store_def blank_device_def)
  have before: "map (\<lambda>d. (dev_id d, azure_device_id d, ninja_device_id d, employee_id d))
        (devices legacy_store)
       = [(1, None, Some ''7'', Some 10), (2, Some ''az-1'', None, None)]"
    by code_simp
  have after: "map (\<lambda>d. (dev_id d, azure_device_id d, ninja_device_id d, employee_id d))
         (devices (ninjaSyncDevice ninja7 details7 500 legacy_store))
       = [(2, Some ''az-1'', Some ''7'', Some 10)]"
    by code_simp
  from kept new c before after show ?thesis by (intro conjI)
qed

theorem device_sync_employee_id_witness:
  "consistent assigned_store
   \<and> laptop \<in> set (devices assigned_store)
   \<and> employee_id laptop = Some 10
   \<and> truthy (azure_device_id laptop)
   \<and> map (\<lambda>d. (dev_id d, ninja_device_id d)) (devices (ninjaSyncDevice ninja7 details7 500 assigned_store))
       = [(dev_id laptop, Some ''7'')]
   \<and> employee_id (hd (devices (ninjaSyncDevice ninja7 details7 500 assigned_store))) = Some 10
   \<and> ninjaFindExisting first_enrolment no_details empty_store = None
   \<and> azureDeviceBySerial first_enrolment no_details empty_store = None
   \<and> map employee_id (devices (ninjaSyncDevice first_enrolment no_details 400 empty_store)) = [None]"
proof -
  have l: "laptop \<in> set (devices assigned_store)" "employee_id laptop = Some 10"
    "truthy (azure_device_id laptop)"
    by (simp_all add: assigned_store_def laptop_def)
  have r: "map (\<lambda>d. (dev_id d, ninja_device_id d))
        (devices (ninjaSyncDevice ninja7 details7 500 assigned_store)) = [(dev_id laptop, Some ''7'')]"
    by code_simp
  then have h: "hd (devices (ninjaSyncDevice ninja7 details7 500 assigned_store))
        \<in> set (devices (ninjaSyncDevice ninja7 details7 500 assigned_store))"
    "dev_id (hd (devices (ninjaSyncDevice ninja7 details7 500 assigned_store))) = dev_id laptop"
    by (cases "devices (ninjaSyncDevice ninja7 details7 500 assigned_store)"; simp)+
  have n: "ninjaFindExisting first_enrolment no_details empty_store = None"
    "azureDeviceBySerial first_enrolment no_details empty_store = None"
    by code_simp+
  from device_sync_employee_id [of assigned_store laptop 10 ninja7 details7 500]
    consistent_assigned_store l h
  have k: "employee_id (hd (devices (ninjaSyncDevice ninja7 details7 500 assigned_store))) = Some 10"
    by blast
  from device_sync_employee_id [of empty_store _ _ first_enrolment no_details 400] n
  have "\<exists>d'. devices (ninjaSyncDevice first_enrolment no_details 400 empty_store)
         = devices empty_store @ [d'] \<and> employee_id d' = None"
    by blast
  then have m: "map employee_id (devices (ninjaSyncDevice first_enrolment no_details 400 empty_store))
      = [None]"
    by (auto simp: empty_store_def)
  from consistent_assigned_store l r k n m show ?thesis by (intro conjI)
qed


section \<open>The name rule: when it is applied and to which rows\<close>

lemma entraFindExisting_ByName:
  assumes "entraFindExisting azureDevice s = Some (ByName, d)"
  shows "entraByAzureId azureDevice s = None"
    and "truthy (extractSerialNumber (or_empty (az_displayName azureDevice))) \<Longrightarrow>
         entraBySerial (or_empty (extractSerialNumber (or_empty (az_displayName azureDevice)))) s = None"
    and "d \<in> set (devices s)" and "azure_device_id d = None"
  using assms
  by (auto simp: entraFindExisting_def Let_def entraByName_def
      split: if_splits dest: single_filter_mem)

lemma ninjaFindExisting_ByName:
  assumes "ninjaFindExisting device deviceDetails s = Some (ByName, d)"
  shows "byNinjaId device s = None" and "unmatchedAzureBySerial deviceDetails s = None"
    and "d \<in> set (devices s)"
  using assms
  by (auto simp: ninjaFindExisting_def Let_def split: if_splits dest: byName_mem)

text \<open>
  C8. In both routes the name rule is applied only after the lookup by external id and
  the lookup by serial number have found nothing, and the directory sync applies it only
  to rows without \<open>azure_device_id\<close>. The device sync applies it to every row: the selects
  of lines 199 to 211 have no filter on \<open>ninja_device_id\<close>. Below, the row bound to NinjaOne
  device 5 is found by name for NinjaOne device 7, and the update rebinds it to 7.
\<close>

theorem name_match_last_not_filtered:
  "(entraFindExisting azureDevice s = Some (ByName, d) \<longrightarrow>
      entraByAzureId azureDevice s = None
      \<and> (truthy (extractSerialNumber (or_empty (az_displayName azureDevice))) \<longrightarrow>
           entraBySerial (or_empty (extractSerialNumber (or_empty (az_displayName azureDevice)))) s = None)
      \<and> d \<in> set (devices s) \<and> azure_device_id d = None)
   \<and> (ninjaFindExisting device deviceDetails s = Some (ByName, d') \<longrightarrow>
      byNinjaId device s = None \<and> unmatchedAzureBySerial deviceDetails s = None
      \<and> d' \<in> set (devices s))
   \<and> map ninja_device_id (devices bound_store) = [Some ''5'']
   \<and> map_option fst (ninjaFindExisting second_enrolment no_details bound_store) = Some ByName
   \<and> map_option (ninja_device_id \<circ> snd) (ninjaFindExisting second_enrolment no_details bound_store)
       = Some (Some ''5'')
   \<and> map ninja_device_id (devices (ninjaSyncDevice second_enrolment no_details 500 bound_store))
       = [Some ''7'']"
proof -
  have a: "map ninja_device_id (devices bound_store) = [Some ''5'']" by code_simp
  have b: "map_option fst (ninjaFindExisting second_enrolment no_details bound_store) = Some ByName"
    by code_simp
  have c: "map_option (ninja_device_id \<circ> snd) (ninjaFindExisting second_enrolment no_details bound_store)
       = Some (Some ''5'')" by code_simp
  have d: "map ninja_device_id (devices (ninjaSyncDevice second_enrolment no_details 500 bound_store))
       = [Some ''7'']" by code_simp
  show ?thesis
    using entraFindExisting_ByName [of azureDevice s d] ninjaFindExisting_ByName [of device deviceDetails s d']
      a b c d by blast
qed


theorem name_match_last_not_filtered_witness:
  "entraFindExisting ninja_first bound_store = Some (ByName, hd (devices bound_store))
   \<and> entraByAzureId ninja_first bound_store = None
   \<and> azure_device_id (hd (devices bound_store)) = None
   \<and> ninjaFindExisting second_enrolment no_details bound_store
       = Some (ByName, hd (devices bound_store))
   \<and> byNinjaId second_enrolment bound_store = None
   \<and> unmatchedAzureBySerial no_details bound_store = None
   \<and> ninja_device_id (hd (devices bound_store)) = Some ''5''"
proof -
  have e: "entraFindExisting ninja_first bound_store = Some (ByName, hd (devices bound_store))"
    by code_simp
  have n: "ninjaFindExisting second_enrolment no_details bound_store
       = Some (ByName, hd (devices bound_store))"
    by code_simp
  have b: "ninja_device_id (hd (devices bound_store)) = Some ''5''" by code_simp
  from name_match_last_not_filtered
    [of ninja_first bound_store "hd (devices bound_store)"
        second_enrolment no_details "hd (devices bound_store)"] e n b
  show ?thesis by simp
qed

end
